theory Spec2Isabelle
  imports Main "HOL-Library.AList"
begin

section \<open>Data model\<close>

text \<open>
  The program is \<^verbatim>\<open>sample_warning_system.py\<close>. Its tables are pandas DataFrames, its
  configuration entries are dictionaries with fixed keys. Calls into the presentation
  layer (\<^verbatim>\<open>st.title\<close>, \<^verbatim>\<open>st.metric\<close>, \<^verbatim>\<open>st.error\<close>, ...) only display text and are left out;
  every value the program computes and every exception it catches is part of the model.

  A character stands for a code point below 256. A pandas Timestamp is an integer count
  of nanoseconds since the epoch, held in 64 bits; so is the difference of two
  Timestamps, and pandas raises when a difference does not fit.
\<close>

type_synonym time = int

definition ns_per_day :: int where
  "ns_per_day = 86400000000000"

definition fits_int64 :: "int \<Rightarrow> bool" where
  "fits_int64 x = (- (2 ^ 63) < x \<and> x < 2 ^ 63)"

text \<open>
  A cell of a DataFrame: the stripped text of a Word table cell, the null value that
  \<^verbatim>\<open>pd.concat\<close> fills in for a column a table does not have, a Timestamp, or the null
  Timestamp \<^verbatim>\<open>NaT\<close>.
\<close>

datatype cell = Text string | NaN | Stamp time | NaT

text \<open>
  A row maps column names to cells, in column order; a DataFrame is its column index and
  its rows. The row index is positional (\<^verbatim>\<open>ignore_index=True\<close> in every concat), so row
  \<open>i\<close> is \<open>rows df ! i\<close>. A header may repeat a name; the operations below raise where
  pandas raises on a repeated name.
\<close>

type_synonym row = "(string \<times> cell) list"

record dataframe =
  columns :: "string list"
  rows :: "row list"

text \<open>The dictionaries \<^verbatim>\<open>rule\<close> and \<^verbatim>\<open>folder_config\<close> with their fixed keys.\<close>

record rule =
  start_column :: string
  end_column :: "string option"
  warning_days :: int
  stability_days :: int

record folder_config =
  name :: string
  path :: string
  rule :: rule

text \<open>Exceptions are values; \<open>str_of\<close> is Python's \<^verbatim>\<open>str(e)\<close>.\<close>

datatype pyerr =
  DateParseError string | ValueError string | PackageNotFoundError string | ImportError string
  | InvalidIndexError string | OverflowError string

fun str_of :: "pyerr \<Rightarrow> string" where
  "str_of (DateParseError s) = s"
| "str_of (ValueError s) = s"
| "str_of (PackageNotFoundError s) = s"
| "str_of (ImportError s) = s"
| "str_of (InvalidIndexError s) = s"
| "str_of (OverflowError s) = s"

text \<open>
  What the date parser of pandas makes of a text of a column: a Timestamp, a null (the
  empty text and the texts pandas reads as missing), or a text it cannot read. pandas
  infers one format for a column, so the reading of a text depends on the column it
  stands in. Dates are read without a time zone.
\<close>

datatype parsed = Parsed time | Missing | Invalid

text \<open>A Word document as \<^verbatim>\<open>python-docx\<close> presents it: its tables, each a list of rows of cell texts.\<close>

type_synonym docx = "string list list list"

text \<open>The three labels of the status column (in the source: overdue, near overdue, normal).\<close>

datatype status = OVERDUE | NEAR | OK

text \<open>
  A row of \<^verbatim>\<open>warning_samples\<close>: the row of the folder's table with its index label and the
  three added columns (elapsed days, remaining days, status), which are taken not to
  clash with a column of the documents.
\<close>

record warning_row =
  row_index :: nat
  cells :: row
  elapsed_days :: "int option"
  remaining_days :: "int option"
  status :: status

text \<open>
  The collaborators outside the repository: the file system, \<^verbatim>\<open>python-docx\<close>, the date
  parser of pandas (given the cells of the column and the text to read) and its
  formatter, its spreadsheet writer \<^verbatim>\<open>to_excel\<close> (which may raise, for
  instance when no Excel engine is installed; it is applied to a merged table and to a
  warning table) and the wall clock. The clock is a sequence of
  readings; the number of readings taken so far is threaded through the program, so that
  two calls of \<^verbatim>\<open>now()\<close> may return different instants.
\<close>

record world =
  path_exists :: "string \<Rightarrow> bool"
  rglob_docx :: "string \<Rightarrow> string list"
  Document :: "string \<Rightarrow> pyerr + docx"
  parse_date :: "cell list \<Rightarrow> string \<Rightarrow> parsed"
  strftime :: "time \<Rightarrow> string"
  to_excel :: "dataframe \<Rightarrow> pyerr + string"
  warnings_to_excel :: "warning_row list \<Rightarrow> pyerr + string"
  clock :: "nat \<Rightarrow> time"

section \<open>DataFrame operations used by the program\<close>

definition get_cell :: "row \<Rightarrow> string \<Rightarrow> cell" where
  "get_cell r c = (case map_of r c of Some v \<Rightarrow> v | None \<Rightarrow> NaN)"

text \<open>\<^verbatim>\<open>df[c]\<close>, read.\<close>

definition column :: "dataframe \<Rightarrow> string \<Rightarrow> cell list" where
  "column df c = map (\<lambda>r. get_cell r c) (rows df)"

text \<open>
  \<^verbatim>\<open>df[c]\<close> handed to \<^verbatim>\<open>pd.to_datetime\<close>: a Series when the name stands once in the
  header. When it stands more than once \<^verbatim>\<open>df[c]\<close> is a DataFrame, which \<^verbatim>\<open>pd.to_datetime\<close>
  refuses. The callers look the name up in the header first.
\<close>

definition series :: "dataframe \<Rightarrow> string \<Rightarrow> pyerr + cell list" where
  "series df c =
     (if count_list (columns df) c = 1 then Inr (column df c)
      else Inl (ValueError ''cannot assemble with duplicate keys''))"

text \<open>
  \<^verbatim>\<open>df[c] = values\<close>: every column of that name is overwritten in place; a new name is
  appended.
\<close>

definition assign :: "string \<Rightarrow> cell \<Rightarrow> row \<Rightarrow> row" where
  "assign c v r =
     (if c \<in> set (map fst r) then map (\<lambda>(k, x). if k = c then (k, v) else (k, x)) r
      else r @ [(c, v)])"

definition set_column :: "dataframe \<Rightarrow> string \<Rightarrow> cell list \<Rightarrow> dataframe" where
  "set_column df c vs =
     \<lparr>columns = (if c \<in> set (columns df) then columns df else columns df @ [c]),
      rows = map (\<lambda>(r, v). assign c v r) (zip (rows df) vs)\<rparr>"

text \<open>\<^verbatim>\<open>df[c] = value\<close> with a scalar: the value is broadcast to every row.\<close>

definition set_column_scalar :: "dataframe \<Rightarrow> string \<Rightarrow> cell \<Rightarrow> dataframe" where
  "set_column_scalar df c v = set_column df c (replicate (length (rows df)) v)"

text \<open>\<^verbatim>\<open>series[mask]\<close> and \<^verbatim>\<open>df[mask]\<close>: the entries where the mask holds, with their index labels.\<close>

definition select :: "bool list \<Rightarrow> 'a list \<Rightarrow> 'a list" where
  "select m xs = map snd (filter fst (zip m xs))"

text \<open>
  \<^verbatim>\<open>pd.to_datetime\<close> on one cell, \<open>p\<close> being the parser for the cell's column. A Timestamp
  stays as it is, the nulls are missing, a text goes to the parser.
\<close>

fun to_datetime_cell :: "(string \<Rightarrow> parsed) \<Rightarrow> cell \<Rightarrow> parsed" where
  "to_datetime_cell p (Text s) = p s"
| "to_datetime_cell p NaN = Missing"
| "to_datetime_cell p (Stamp t) = Parsed t"
| "to_datetime_cell p NaT = Missing"

fun coerce :: "parsed \<Rightarrow> time option" where
  "coerce (Parsed t) = Some t"
| "coerce Missing = None"
| "coerce Invalid = None"

text \<open>
  \<^verbatim>\<open>pd.to_datetime(series, errors='coerce')\<close>: every text is read as a text of this column;
  what cannot be read becomes \<^verbatim>\<open>NaT\<close> (\<open>None\<close>).
\<close>

definition to_datetime_coerce ::
  "(cell list \<Rightarrow> string \<Rightarrow> parsed) \<Rightarrow> cell list \<Rightarrow> time option list" where
  "to_datetime_coerce p cs = map (\<lambda>c. coerce (to_datetime_cell (p cs) c)) cs"

text \<open>
  \<^verbatim>\<open>pd.to_datetime(series)\<close> with the default \<^verbatim>\<open>errors='raise'\<close>: the same reading, but the
  first text that cannot be read raises. The message of the exception is represented by
  that text.
\<close>

definition to_datetime ::
  "(cell list \<Rightarrow> string \<Rightarrow> parsed) \<Rightarrow> cell list \<Rightarrow> pyerr + time option list" where
  "to_datetime p cs =
     (case find (\<lambda>c. to_datetime_cell (p cs) c = Invalid) cs of
        Some (Text s) \<Rightarrow> Inl (DateParseError s)
      | Some _ \<Rightarrow> Inl (DateParseError [])
      | None \<Rightarrow> Inr (to_datetime_coerce p cs))"

fun stamp_cell :: "time option \<Rightarrow> cell" where
  "stamp_cell (Some t) = Stamp t"
| "stamp_cell None = NaT"

text \<open>\<^verbatim>\<open>.dt.strftime('%Y-%m-%d')\<close>: a text for a Timestamp, the null for \<^verbatim>\<open>NaT\<close>.\<close>

fun strftime_cell :: "(time \<Rightarrow> string) \<Rightarrow> time option \<Rightarrow> cell" where
  "strftime_cell f (Some t) = Text (f t)"
| "strftime_cell f None = NaN"

text \<open>
  \<^verbatim>\<open>(end - start).dt.days\<close>: the whole days of the difference, rounded towards minus
  infinity as \<^verbatim>\<open>Timedelta.days\<close> is; undefined (\<^verbatim>\<open>NaN\<close>, here \<open>None\<close>) when either date is \<^verbatim>\<open>NaT\<close>.
\<close>

fun days_between :: "time option \<Rightarrow> time option \<Rightarrow> int option" where
  "days_between (Some e) (Some s) = Some ((e - s) div ns_per_day)"
| "days_between _ _ = None"

text \<open>The end dates are a Series (one per row) or the scalar \<^verbatim>\<open>pd.Timestamp.now()\<close>, broadcast.\<close>

datatype end_dates = Series "time option list" | Scalar time

fun pairs_of :: "end_dates \<Rightarrow> time option list \<Rightarrow> (time option \<times> time option) list" where
  "pairs_of (Series es) ss = zip es ss"
| "pairs_of (Scalar t) ss = map (\<lambda>s. (Some t, s)) ss"

text \<open>A difference of two Timestamps that does not fit into 64 bits.\<close>

fun overflows :: "time option \<times> time option \<Rightarrow> bool" where
  "overflows (Some e, Some s) = (\<not> fits_int64 (e - s))"
| "overflows _ = False"

text \<open>
  \<^verbatim>\<open>(end_dates - df[start_col]).dt.days\<close>: the subtraction raises when a difference
  overflows.
\<close>

definition days_diff_of :: "end_dates \<Rightarrow> time option list \<Rightarrow> pyerr + int option list" where
  "days_diff_of ends ss =
     (if list_ex overflows (pairs_of ends ss)
      then Inl (OverflowError ''Overflow in int64 addition'')
      else Inr (map (\<lambda>(e, s). days_between e s) (pairs_of ends ss)))"

section \<open>The warning evaluator: \<^verbatim>\<open>process_date_warnings\<close>\<close>

text \<open>The dictionary appended to \<^verbatim>\<open>warning_results\<close>.\<close>

record warning =
  w_mask :: "bool list"
  w_start_col :: string
  w_end_col :: string
  w_warning_days :: int
  w_stability_days :: int
  w_days_diff :: "int option list"
  w_remaining_days :: "int option list"

text \<open>The label shown when no end column is configured (the source's Chinese for "current date").\<close>

definition current_date_label :: string where
  "current_date_label = ''current date''"

text \<open>Python's truth value of \<^verbatim>\<open>end_col\<close>: \<^verbatim>\<open>None\<close> and the empty string are false.\<close>

fun truthy :: "string option \<Rightarrow> bool" where
  "truthy None = False"
| "truthy (Some s) = (s \<noteq> [])"

fun or_label :: "string option \<Rightarrow> string \<Rightarrow> string" where
  "or_label None d = d"
| "or_label (Some s) d = (if s = [] then d else s)"

text \<open>
  \<^verbatim>\<open>days_diff > warning_days\<close> on one entry: a comparison with \<^verbatim>\<open>NaN\<close> is false.
\<close>

fun exceeds :: "int \<Rightarrow> int option \<Rightarrow> bool" where
  "exceeds wd (Some d) = (d > wd)"
| "exceeds wd None = False"

text \<open>
  The end dates of one rule: the end column parsed with \<^verbatim>\<open>errors='coerce'\<close> when it is
  configured and among the columns, else one reading of the clock. The result is the end
  dates or the exception, and the number of clock readings taken.
\<close>

fun get_end_dates ::
  "world \<Rightarrow> dataframe \<Rightarrow> string option \<Rightarrow> nat \<Rightarrow> (pyerr + end_dates) \<times> nat" where
  "get_end_dates w df (Some e) n =
     (if e \<noteq> [] \<and> e \<in> set (columns df)
      then (case series df e of
              Inl x \<Rightarrow> (Inl x, n)
            | Inr cs \<Rightarrow> (Inr (Series (to_datetime_coerce (parse_date w) cs)), n))
      else (Inr (Scalar (clock w n)), Suc n))"
| "get_end_dates w df None n = (Inr (Scalar (clock w n)), Suc n)"

text \<open>
  One pass of the loop over \<^verbatim>\<open>date_rules\<close>. The state is the DataFrame (mutated in place
  by the source), the results so far and the number of clock readings taken; the result
  is the state reached and the exception that ended the pass, if any. The start column
  is overwritten with its parsed dates before the end column is looked at, and the
  subtraction reads the start column back: these are the dates \<open>starts\<close>.

  The day counts are held by pandas in 64-bit integers or, next to a \<^verbatim>\<open>NaN\<close>, in 64-bit
  floats; both are exact below \<open>2 ^ 53\<close>. The integers of the model are the values of the
  code for a rule whose two day counts are below \<open>2 ^ 52\<close> in magnitude (\<open>exact_days\<close>).
\<close>

definition exact_days :: "rule \<Rightarrow> bool" where
  "exact_days r = (\<bar>warning_days r\<bar> < 2 ^ 52 \<and> \<bar>stability_days r\<bar> < 2 ^ 52)"

definition apply_rule ::
  "world \<Rightarrow> rule \<Rightarrow> dataframe \<times> warning list \<times> nat \<Rightarrow>
     (dataframe \<times> warning list \<times> nat) \<times> pyerr option" where
  "apply_rule w r st =
     (case st of (df, warning_results, n) \<Rightarrow>
        if start_column r \<notin> set (columns df) then ((df, warning_results, n), None)
        else
          (case series df (start_column r) of
             Inl e \<Rightarrow> ((df, warning_results, n), Some e)
           | Inr cs \<Rightarrow>
               let starts = to_datetime_coerce (parse_date w) cs;
                   df' = set_column df (start_column r) (map stamp_cell starts)
               in (case get_end_dates w df' (end_column r) n of
                     (Inl e, n') \<Rightarrow> ((df', warning_results, n'), Some e)
                   | (Inr ends, n') \<Rightarrow>
                       (case days_diff_of ends starts of
                          Inl e \<Rightarrow> ((df', warning_results, n'), Some e)
                        | Inr days_diff \<Rightarrow>
                            let remaining_days =
                                  map (map_option (\<lambda>d. stability_days r - d)) days_diff;
                                warning_mask = map (exceeds (warning_days r)) days_diff
                            in if list_ex (\<lambda>b. b) warning_mask
                               then ((df', warning_results @
                                      [\<lparr>w_mask = warning_mask,
                                        w_start_col = start_column r,
                                        w_end_col = or_label (end_column r) current_date_label,
                                        w_warning_days = warning_days r,
                                        w_stability_days = stability_days r,
                                        w_days_diff = days_diff,
                                        w_remaining_days = remaining_days\<rparr>], n'), None)
                               else ((df', warning_results, n'), None)))))"

text \<open>The loop: an exception ends it.\<close>

fun rules_loop ::
  "world \<Rightarrow> rule list \<Rightarrow> dataframe \<times> warning list \<times> nat \<Rightarrow>
     (dataframe \<times> warning list \<times> nat) \<times> pyerr option" where
  "rules_loop w [] st = (st, None)"
| "rules_loop w (r # rs) st =
     (case apply_rule w r st of
        (st', None) \<Rightarrow> rules_loop w rs st'
      | (st', Some e) \<Rightarrow> (st', Some e))"

text \<open>
  The evaluator, called with the table, the rules and the number of clock readings
  taken: the table as it left it, the results, the new number of readings, and the
  exception that ended it, if any.
\<close>

definition process_date_warnings ::
  "world \<Rightarrow> nat \<Rightarrow> dataframe \<Rightarrow> rule list \<Rightarrow>
     (dataframe \<times> warning list \<times> nat) \<times> pyerr option" where
  "process_date_warnings w n df date_rules = rules_loop w date_rules (df, [], n)"

section \<open>The table extractor: \<^verbatim>\<open>extract_tables_from_word\<close>\<close>

text \<open>
  \<^verbatim>\<open>str.strip()\<close>: leading and trailing white space removed. These are the code points
  below 256 that Python counts as white space.
\<close>

definition is_space :: "char \<Rightarrow> bool" where
  "is_space c =
     (c \<in> set [CHR '' '', CHR 0x09, CHR 0x0A, CHR 0x0B, CHR 0x0C, CHR 0x0D,
                CHR 0x1C, CHR 0x1D, CHR 0x1E, CHR 0x1F, CHR 0x85, CHR 0xA0])"

definition strip :: "string \<Rightarrow> string" where
  "strip s = rev (dropWhile is_space (rev (dropWhile is_space s)))"

text \<open>
  \<^verbatim>\<open>pd.DataFrame(data, columns=header)\<close> on a list of rows: short rows are padded with
  nulls up to the widest row, and pandas raises when the widest row and the header differ
  in length.
\<close>

definition pd_DataFrame :: "string list list \<Rightarrow> string list \<Rightarrow> pyerr + dataframe" where
  "pd_DataFrame data header =
     (if data \<noteq> [] \<and> fold max (map length data) 0 \<noteq> length header
      then Inl (ValueError ''columns passed do not match the data'')
      else Inr \<lparr>columns = header,
                rows = map (\<lambda>r. zip header (map Text r @ replicate (length header - length r) NaN)) data\<rparr>)"

text \<open>
  The loop over \<^verbatim>\<open>doc.tables\<close>: a table with no row at all is passed over, any other
  becomes a DataFrame whose first row is the header; an exception leaves the loop.
\<close>

fun tables_loop :: "string list list list \<Rightarrow> dataframe list \<Rightarrow> pyerr + dataframe list" where
  "tables_loop [] all_tables = Inr all_tables"
| "tables_loop (t # ts) all_tables =
     (case map (map strip) t of
        [] \<Rightarrow> tables_loop ts all_tables
      | header # body \<Rightarrow>
          (case pd_DataFrame body header of
             Inl e \<Rightarrow> Inl e
           | Inr df \<Rightarrow> tables_loop ts (all_tables @ [df])))"

text \<open>The \<^verbatim>\<open>try\<close> around the whole body: any exception gives the empty list.\<close>

definition extract_tables_from_word :: "world \<Rightarrow> string \<Rightarrow> dataframe list" where
  "extract_tables_from_word w file_path =
     (case Document w file_path of
        Inl e \<Rightarrow> []
      | Inr doc \<Rightarrow> (case tables_loop doc [] of Inl e \<Rightarrow> [] | Inr all_tables \<Rightarrow> all_tables))"

section \<open>The aggregator: the loop over the files of one folder\<close>

text \<open>\<^verbatim>\<open>Path.name\<close>: the last component of a path.\<close>

definition path_name :: "string \<Rightarrow> string" where
  "path_name p = rev (takeWhile (\<lambda>c. c \<noteq> CHR ''/'') (rev p))"

text \<open>The two injected columns (the source names them in Chinese: file name, source folder).\<close>

definition source_file :: string where
  "source_file = ''source_file''"

definition source_folder :: string where
  "source_folder = ''source_folder''"

record file_scan =
  folder_tables :: "dataframe list"
  processed_files :: nat
  failed_files :: "string list"

definition tag_table :: "string \<Rightarrow> string \<Rightarrow> dataframe \<Rightarrow> dataframe" where
  "tag_table file_name folder_name table =
     set_column_scalar (set_column_scalar table source_file (Text file_name))
       source_folder (Text folder_name)"

text \<open>
  One pass of \<^verbatim>\<open>for file_path in word_files\<close>. The extractor catches its own exceptions
  and the column assignments cannot raise, so the handler of the inner \<^verbatim>\<open>try\<close> is never
  entered.
\<close>

definition scan_file :: "world \<Rightarrow> string \<Rightarrow> file_scan \<Rightarrow> string \<Rightarrow> file_scan" where
  "scan_file w folder_name sc file_path =
     (let tables = extract_tables_from_word w file_path
      in if tables \<noteq> []
         then sc\<lparr>folder_tables := folder_tables sc @ map (tag_table (path_name file_path) folder_name) tables,
                 processed_files := Suc (processed_files sc)\<rparr>
         else sc\<lparr>failed_files := failed_files sc @ [path_name file_path]\<rparr>)"

definition scan_files :: "world \<Rightarrow> string \<Rightarrow> string list \<Rightarrow> file_scan" where
  "scan_files w folder_name word_files =
     foldl (scan_file w folder_name)
       \<lparr>folder_tables = [], processed_files = 0, failed_files = []\<rparr> word_files"

text \<open>
  \<^verbatim>\<open>pd.concat(tables, ignore_index=True)\<close>. Tables with one and the same header are put
  one after the other. Otherwise the columns are the union of the tables' columns in
  order of first appearance and a column a table does not have is null in its rows; for
  this pandas re-indexes the tables and raises when a header repeats a name. An empty
  list of tables is refused.
\<close>

fun union_index :: "string list \<Rightarrow> string list \<Rightarrow> string list" where
  "union_index acc [] = acc"
| "union_index acc (c # cs) = union_index (if c \<in> set acc then acc else acc @ [c]) cs"

definition reindex :: "string list \<Rightarrow> row \<Rightarrow> row" where
  "reindex cols r = map (\<lambda>c. (c, get_cell r c)) cols"

fun pd_concat :: "dataframe list \<Rightarrow> pyerr + dataframe" where
  "pd_concat [] = Inl (ValueError ''No objects to concatenate'')"
| "pd_concat (d # ds) =
     (if list_all (\<lambda>df. columns df = columns d) ds
      then Inr \<lparr>columns = columns d, rows = concat (map rows (d # ds))\<rparr>
      else if list_ex (\<lambda>df. \<not> distinct (columns df)) (d # ds)
      then Inl (InvalidIndexError ''Reindexing only valid with uniquely valued Index objects'')
      else Inr \<lparr>columns = union_index [] (concat (map columns (d # ds))),
                rows = concat (map (\<lambda>df. map (reindex (union_index []
                         (concat (map columns (d # ds))))) (rows df)) (d # ds))\<rparr>)"

section \<open>Classification and the warning rows of one folder\<close>

text \<open>
  The lambda applied to the remaining days. On \<^verbatim>\<open>NaN\<close> both comparisons are false, which
  gives the last label.
\<close>

fun status_of :: "int option \<Rightarrow> status" where
  "status_of (Some x) = (if x \<le> 0 then OVERDUE else if x \<le> 30 then NEAR else OK)"
| "status_of None = OK"

text \<open>The body of \<^verbatim>\<open>for warning in warning_results\<close> up to the filter on the status.\<close>

definition warning_samples_of :: "dataframe \<Rightarrow> warning \<Rightarrow> warning_row list" where
  "warning_samples_of folder_merged wn =
     (let picked = select (w_mask wn) (zip [0..<length (rows folder_merged)] (rows folder_merged));
          elapsed = select (w_mask wn) (w_days_diff wn);
          remaining = select (w_mask wn) (w_remaining_days wn);
          samples = map (\<lambda>((i, r), e, rm).
                      \<lparr>row_index = i, cells = r, elapsed_days = e, remaining_days = rm,
                       status = status_of rm\<rparr>) (zip picked (zip elapsed remaining))
      in filter (\<lambda>s. status s \<noteq> OK) samples)"

text \<open>The non-empty sample tables, in order, appended to \<^verbatim>\<open>all_warning_samples\<close>.\<close>

definition collect_warnings :: "dataframe \<Rightarrow> warning list \<Rightarrow> warning_row list list" where
  "collect_warnings folder_merged warning_results =
     filter (\<lambda>ws. ws \<noteq> []) (map (warning_samples_of folder_merged) warning_results)"

text \<open>
  \<^verbatim>\<open>df[c] = pd.to_datetime(df[c]).dt.strftime('%Y-%m-%d')\<close>, as the folder loop does for the
  start and the end column: here \<^verbatim>\<open>to_datetime\<close> has its default \<^verbatim>\<open>errors='raise'\<close>.
\<close>

definition format_column :: "world \<Rightarrow> dataframe \<Rightarrow> string \<Rightarrow> pyerr + dataframe" where
  "format_column w df c =
     (case series df c of
        Inl e \<Rightarrow> Inl e
      | Inr cs \<Rightarrow>
          (case to_datetime (parse_date w) cs of
             Inl e \<Rightarrow> Inl e
           | Inr ts \<Rightarrow> Inr (set_column df c (map (strftime_cell (strftime w)) ts))))"

section \<open>The pipeline: the folder loop of \<^verbatim>\<open>process_tables\<close>\<close>

text \<open>
  The variables the folder loop updates: the two result lists, the four parts of
  \<^verbatim>\<open>folder_status\<close> and the number of clock readings taken. \<^verbatim>\<open>file_errors\<close> is a dictionary
  keyed by folder name, kept in insertion order.
\<close>

record run_state =
  all_tables :: "dataframe list"
  all_warning_samples :: "warning_row list list"
  st_success :: "(string \<times> nat \<times> nat) list"
  st_empty :: "string list"
  st_error :: "(string \<times> string) list"
  st_file_errors :: "(string \<times> string list) list"
  ticks :: nat

definition path_missing_message :: "string \<Rightarrow> string" where
  "path_missing_message folder_path = ''folder path does not exist: '' @ folder_path"

fun format_end :: "world \<Rightarrow> dataframe \<Rightarrow> string option \<Rightarrow> pyerr + dataframe" where
  "format_end w df None = Inr df"
| "format_end w df (Some e) =
     (if e \<noteq> [] \<and> e \<in> set (columns df) then format_column w df e else Inr df)"

text \<open>
  The block under \<^verbatim>\<open>if folder_tables:\<close>. The merged table is appended to \<^verbatim>\<open>all_tables\<close>
  first and then changed in place (by the evaluator and by the two re-formattings), so
  \<^verbatim>\<open>all_tables\<close> holds the table as the block left it, also when the block raises. The
  result is the state reached and the exception that left the block, if any.
\<close>

definition evaluate_folder ::
  "world \<Rightarrow> folder_config \<Rightarrow> file_scan \<Rightarrow> run_state \<Rightarrow> run_state \<times> pyerr option" where
  "evaluate_folder w fc sc s =
     (case pd_concat (folder_tables sc) of
        Inl e \<Rightarrow> (s, Some e)
      | Inr folder_merged \<Rightarrow>
          (case process_date_warnings w (ticks s) folder_merged [rule fc] of
             ((fm1, warning_results, n), Some e) \<Rightarrow>
               (s\<lparr>all_tables := all_tables s @ [fm1], ticks := n\<rparr>, Some e)
           | ((fm1, warning_results, n), None) \<Rightarrow>
               (case (if start_column (rule fc) \<in> set (columns fm1)
                      then format_column w fm1 (start_column (rule fc)) else Inr fm1) of
                  Inl e \<Rightarrow> (s\<lparr>all_tables := all_tables s @ [fm1], ticks := n\<rparr>, Some e)
                | Inr fm2 \<Rightarrow>
                    (case format_end w fm2 (end_column (rule fc)) of
                       Inl e \<Rightarrow> (s\<lparr>all_tables := all_tables s @ [fm2], ticks := n\<rparr>, Some e)
                     | Inr fm3 \<Rightarrow>
                         (s\<lparr>all_tables := all_tables s @ [fm3],
                            all_warning_samples :=
                              all_warning_samples s @ collect_warnings fm3 warning_results,
                            st_success := st_success s @
                              [(name fc, processed_files sc, length (failed_files sc))],
                            ticks := n\<rparr>, None)))))"

text \<open>The body of the \<^verbatim>\<open>try\<close> for one folder.\<close>

definition process_folder ::
  "world \<Rightarrow> folder_config \<Rightarrow> run_state \<Rightarrow> run_state \<times> pyerr option" where
  "process_folder w fc s =
     (if \<not> path_exists w (path fc)
      then (s\<lparr>st_error := st_error s @ [(name fc, path_missing_message (path fc))]\<rparr>, None)
      else if rglob_docx w (path fc) = []
      then (s\<lparr>st_empty := st_empty s @ [name fc]\<rparr>, None)
      else
        let sc = scan_files w (name fc) (rglob_docx w (path fc));
            s1 = (if failed_files sc \<noteq> []
                  then s\<lparr>st_file_errors :=
                           AList.update (name fc) (failed_files sc) (st_file_errors s)\<rparr>
                  else s)
        in if folder_tables sc \<noteq> [] then evaluate_folder w fc sc s1 else (s1, None))"

text \<open>The \<^verbatim>\<open>try\<close> with its handler: an exception becomes an entry of the error list.\<close>

definition folder_step :: "world \<Rightarrow> run_state \<Rightarrow> folder_config \<Rightarrow> run_state" where
  "folder_step w s fc =
     (case process_folder w fc s of
        (s', None) \<Rightarrow> s'
      | (s', Some e) \<Rightarrow> s'\<lparr>st_error := st_error s' @ [(name fc, str_of e)]\<rparr>)"

definition run_folders :: "world \<Rightarrow> run_state \<Rightarrow> folder_config list \<Rightarrow> run_state" where
  "run_folders w s folders = foldl (folder_step w) s folders"

section \<open>The report\<close>

text \<open>\<^verbatim>\<open>value_counts()\<close> and \<^verbatim>\<open>Series.get(key, default)\<close>.\<close>

definition value_counts :: "status list \<Rightarrow> (status \<times> nat) list" where
  "value_counts xs = map (\<lambda>s. (s, count_list xs s)) (remdups xs)"

definition series_get :: "(status \<times> nat) list \<Rightarrow> status \<Rightarrow> nat \<Rightarrow> nat" where
  "series_get summary k d = (case map_of summary k of Some n \<Rightarrow> n | None \<Rightarrow> d)"

text \<open>
  What \<^verbatim>\<open>process_tables\<close> has computed when it starts to render: the folder status, the
  merged table and the warning table with their spreadsheet buffers (each absent when
  nothing was collected) and the status counts. A row of the warning table keeps the
  index it had in its folder's table. The first clock reading is the run timestamp of the
  file names.
\<close>

record report =
  final :: run_state
  merged_all :: "dataframe option"
  excel_buffer :: "string option"
  combined_warnings :: "warning_row list option"
  status_summary :: "(status \<times> nat) list"
  warning_buffer :: "string option"
  current_time :: time

definition initial_state :: run_state where
  "initial_state =
     \<lparr>all_tables = [], all_warning_samples = [], st_success = [], st_empty = [],
      st_error = [], st_file_errors = [], ticks = 1\<rparr>"

text \<open>
  \<^verbatim>\<open>if all_tables:\<close> concatenate and serialise; an exception of \<^verbatim>\<open>pd.concat\<close> or of the
  writer is not caught.
\<close>

definition build_merged :: "world \<Rightarrow> dataframe list \<Rightarrow> pyerr + (dataframe \<times> string) option" where
  "build_merged w tables =
     (if tables \<noteq> []
      then (case pd_concat tables of
              Inl e \<Rightarrow> Inl e
            | Inr merged \<Rightarrow>
                (case to_excel w merged of
                   Inl e \<Rightarrow> Inl e
                 | Inr buffer \<Rightarrow> Inr (Some (merged, buffer))))
      else Inr None)"

text \<open>\<^verbatim>\<open>if all_warning_samples:\<close> concatenate, count the statuses and serialise.\<close>

definition build_warnings ::
  "world \<Rightarrow> warning_row list list \<Rightarrow>
     pyerr + (warning_row list \<times> (status \<times> nat) list \<times> string) option" where
  "build_warnings w samples =
     (if samples \<noteq> []
      then (case warnings_to_excel w (concat samples) of
              Inl e \<Rightarrow> Inl e
            | Inr buffer \<Rightarrow>
                Inr (Some (concat samples, value_counts (map status (concat samples)), buffer)))
      else Inr None)"

text \<open>
  The run: the folder loop, then the two tables. The result is the report, or the
  exception that ended the run.
\<close>

definition process_tables :: "world \<Rightarrow> folder_config list \<Rightarrow> pyerr + report" where
  "process_tables w cfg =
     (let s = run_folders w initial_state cfg
      in case build_merged w (all_tables s) of
           Inl e \<Rightarrow> Inl e
         | Inr merged \<Rightarrow>
             (case build_warnings w (all_warning_samples s) of
                Inl e \<Rightarrow> Inl e
              | Inr warned \<Rightarrow>
                  Inr \<lparr>final = s,
                       merged_all = map_option fst merged,
                       excel_buffer = map_option snd merged,
                       combined_warnings = map_option fst warned,
                       status_summary = (case warned of
                                           Some (rs, summary, buffer) \<Rightarrow> summary
                                         | None \<Rightarrow> []),
                       warning_buffer = map_option (\<lambda>(rs, summary, buffer). buffer) warned,
                       current_time = clock w 0\<rparr>))"

text \<open>
  The three metrics of the warning tab: the two status counts, read with default 0 as the
  source does, and the number of warning rows collected (the length of the warning table
  when there is one).
\<close>

definition overdue_count :: "report \<Rightarrow> nat" where
  "overdue_count r = series_get (status_summary r) OVERDUE 0"

definition near_count :: "report \<Rightarrow> nat" where
  "near_count r = series_get (status_summary r) NEAR 0"

definition total_warnings :: "report \<Rightarrow> nat" where
  "total_warnings r = length (concat (all_warning_samples (final r)))"

section \<open>The configuration store\<close>

text \<open>
  The content of a JSON file as \<^verbatim>\<open>json.load\<close> reads it: not readable as JSON, or an
  object. The code only reads the key \<^verbatim>\<open>folders\<close>, whose value is a list of folder
  entries; \<^verbatim>\<open>json.dump\<close> writes what \<^verbatim>\<open>json.load\<close> reads back.
\<close>

datatype json_file = Malformed | Object "(string \<times> folder_config list) list"

text \<open>
  The disk holds \<^verbatim>\<open>config.json\<close> (or not) and may refuse a write. The application state
  is \<^verbatim>\<open>st.session_state.folders\<close> together with the disk.
\<close>

record disk =
  config_file :: "json_file option"
  writable :: bool

record app =
  folders :: "folder_config list"
  storage :: disk

fun load_config :: "disk \<Rightarrow> folder_config list" where
  "load_config d =
     (case config_file d of
        None \<Rightarrow> []
      | Some Malformed \<Rightarrow> []
      | Some (Object config) \<Rightarrow> (case map_of config ''folders'' of Some fs \<Rightarrow> fs | None \<Rightarrow> []))"

text \<open>\<^verbatim>\<open>save_config\<close> returns the disk and whether the write succeeded.\<close>

definition save_config :: "folder_config list \<Rightarrow> disk \<Rightarrow> disk \<times> bool" where
  "save_config fs d =
     (if writable d then (d\<lparr>config_file := Some (Object [(''folders'', fs)])\<rparr>, True)
      else (d, False))"

text \<open>The entry both forms build: an empty end column is stored as \<^verbatim>\<open>None\<close>.\<close>

definition new_config :: "string \<Rightarrow> string \<Rightarrow> string \<Rightarrow> string \<Rightarrow> int \<Rightarrow> int \<Rightarrow> folder_config" where
  "new_config folder_name folder_path start_col end_col wd sd =
     \<lparr>name = folder_name, path = folder_path,
      rule = \<lparr>start_column = start_col,
              end_column = (if end_col \<noteq> [] then Some end_col else None),
              warning_days = wd, stability_days = sd\<rparr>\<rparr>"

text \<open>Session start: the folder list is loaded from the disk.\<close>

definition start_session :: "disk \<Rightarrow> app" where
  "start_session d = \<lparr>folders = load_config d, storage = d\<rparr>"

text \<open>The submit button of either form: append and save.\<close>

definition add_folder :: "folder_config \<Rightarrow> app \<Rightarrow> app" where
  "add_folder fc a =
     (let fs = folders a @ [fc] in \<lparr>folders = fs, storage = fst (save_config fs (storage a))\<rparr>)"

text \<open>The delete button of entry \<open>i\<close>, which exists for the entries of the list only: \<^verbatim>\<open>pop(i)\<close> and save.\<close>

definition delete_folder :: "nat \<Rightarrow> app \<Rightarrow> app option" where
  "delete_folder i a =
     (if i < length (folders a)
      then (let fs = take i (folders a) @ drop (Suc i) (folders a)
            in Some \<lparr>folders = fs, storage = fst (save_config fs (storage a))\<rparr>)
      else None)"

text \<open>The button "clear the current configuration": the list is emptied, nothing is saved.\<close>

definition clear_current :: "app \<Rightarrow> app" where
  "clear_current a = a\<lparr>folders := []\<rparr>"

text \<open>The button "clear all configuration": the list is emptied and saved.\<close>

definition clear_all :: "app \<Rightarrow> app" where
  "clear_all a = \<lparr>folders = [], storage = fst (save_config [] (storage a))\<rparr>"

text \<open>
  Export: offered only while the list is not empty; the document is the object with the
  one key \<^verbatim>\<open>folders\<close>.
\<close>

definition export_config :: "app \<Rightarrow> json_file option" where
  "export_config a = (if folders a \<noteq> [] then Some (Object [(''folders'', folders a)]) else None)"

text \<open>
  Import of an uploaded file: the state and whether the import was accepted. A file that
  is not JSON raises in \<^verbatim>\<open>json.load\<close>, which the handler reports; an object without the
  key is reported as invalid; in both cases nothing changes.
\<close>

fun import_config :: "json_file \<Rightarrow> app \<Rightarrow> app \<times> bool" where
  "import_config Malformed a = (a, False)"
| "import_config (Object imported_config) a =
     (case map_of imported_config ''folders'' of
        Some fs \<Rightarrow> (\<lparr>folders = fs, storage = fst (save_config fs (storage a))\<rparr>, True)
      | None \<Rightarrow> (a, False))"

section \<open>The quantities the specification names\<close>

text \<open>
  The specification speaks of a row's start date, end date, elapsed days and remaining
  days. These definitions follow its words (section 4.2, steps 1 to 4), for all rows of a
  table at once since a date is read as a text of its column: entry \<open>i\<close> belongs to row
  \<open>i\<close>, and \<open>now\<close> is the clock reading. They are compared below with what
  \<open>process_date_warnings\<close> computes.
\<close>

definition spec_start_dates :: "world \<Rightarrow> rule \<Rightarrow> dataframe \<Rightarrow> time option list" where
  "spec_start_dates w r df = to_datetime_coerce (parse_date w) (column df (start_column r))"

text \<open>The end column is configured and present.\<close>

fun end_configured :: "string option \<Rightarrow> string list \<Rightarrow> bool" where
  "end_configured None cols = False"
| "end_configured (Some e) cols = (e \<noteq> [] \<and> e \<in> set cols)"

fun spec_end_dates :: "world \<Rightarrow> string option \<Rightarrow> dataframe \<Rightarrow> time \<Rightarrow> time option list" where
  "spec_end_dates w None df now = replicate (length (rows df)) (Some now)"
| "spec_end_dates w (Some e) df now =
     (if e \<noteq> [] \<and> e \<in> set (columns df)
      then to_datetime_coerce (parse_date w) (column df e)
      else replicate (length (rows df)) (Some now))"

definition spec_elapsed_days :: "world \<Rightarrow> rule \<Rightarrow> dataframe \<Rightarrow> time \<Rightarrow> int option list" where
  "spec_elapsed_days w r df now =
     map (\<lambda>(e, s). days_between e s)
       (zip (spec_end_dates w (end_column r) df now) (spec_start_dates w r df))"

definition spec_remaining_days :: "world \<Rightarrow> rule \<Rightarrow> dataframe \<Rightarrow> time \<Rightarrow> int option list" where
  "spec_remaining_days w r df now =
     map (map_option (\<lambda>d. stability_days r - d)) (spec_elapsed_days w r df now)"

text \<open>A folder produces data when its path exists and at least one of its files yields a table.\<close>

definition produces_data :: "world \<Rightarrow> folder_config \<Rightarrow> bool" where
  "produces_data w fc =
     (path_exists w (path fc) \<and>
      folder_tables (scan_files w (name fc) (rglob_docx w (path fc))) \<noteq> [])"

section \<open>Closed forms of the evaluator's results\<close>

text \<open>
  The two conditions under which a pass of the evaluator raises after it has found the
  start column once in the header: the end column is configured and present but stands
  more than once in the header, or a difference of two dates overflows.
\<close>

fun end_repeated :: "string option \<Rightarrow> string list \<Rightarrow> bool" where
  "end_repeated None cols = False"
| "end_repeated (Some e) cols = (e \<noteq> [] \<and> e \<in> set cols \<and> count_list cols e \<noteq> 1)"

definition date_overflow :: "world \<Rightarrow> rule \<Rightarrow> dataframe \<Rightarrow> time \<Rightarrow> bool" where
  "date_overflow w r df now =
     list_ex overflows (zip (spec_end_dates w (end_column r) df now) (spec_start_dates w r df))"

text \<open>A pass reads the clock when the start column is present and no end column is configured and present.\<close>

definition reads_clock :: "string list \<Rightarrow> rule \<Rightarrow> bool" where
  "reads_clock cols r = (start_column r \<in> set cols \<and> \<not> end_configured (end_column r) cols)"

text \<open>
  What one pass of the evaluator leaves behind, written without the loop: the table with
  its start column converted, the same table with that column re-formatted by the folder
  loop, the warning record of a rule, the list of results of a rule (one record, or none
  when the start column is missing or no row exceeds the warning days), and the row of
  the sample table made from row \<open>i\<close>. The lemmas prove that the program computes these.
\<close>

definition converted :: "world \<Rightarrow> rule \<Rightarrow> dataframe \<Rightarrow> dataframe" where
  "converted w r df =
     set_column df (start_column r) (map stamp_cell (spec_start_dates w r df))"

definition formatted :: "world \<Rightarrow> rule \<Rightarrow> dataframe \<Rightarrow> dataframe" where
  "formatted w r df =
     set_column (converted w r df) (start_column r)
       (map (strftime_cell (strftime w)) (spec_start_dates w r df))"

definition rule_warning :: "world \<Rightarrow> rule \<Rightarrow> dataframe \<Rightarrow> nat \<Rightarrow> warning" where
  "rule_warning w r df n =
     \<lparr>w_mask = map (exceeds (warning_days r)) (spec_elapsed_days w r df (clock w n)),
      w_start_col = start_column r,
      w_end_col = or_label (end_column r) current_date_label,
      w_warning_days = warning_days r,
      w_stability_days = stability_days r,
      w_days_diff = spec_elapsed_days w r df (clock w n),
      w_remaining_days = spec_remaining_days w r df (clock w n)\<rparr>"

definition folder_results :: "world \<Rightarrow> rule \<Rightarrow> dataframe \<Rightarrow> nat \<Rightarrow> warning list" where
  "folder_results w r df n =
     (if start_column r \<in> set (columns df) \<and>
         list_ex (exceeds (warning_days r)) (spec_elapsed_days w r df (clock w n))
      then [rule_warning w r df n] else [])"

text \<open>
  The number of clock readings taken before each pass of a list of rules, the first pass
  starting at \<open>n\<close>.
\<close>

fun pass_ticks :: "string list \<Rightarrow> nat \<Rightarrow> rule list \<Rightarrow> nat list" where
  "pass_ticks cols n [] = []"
| "pass_ticks cols n (r # rs) = n # pass_ticks cols (if reads_clock cols r then Suc n else n) rs"

definition sample_row :: "dataframe \<Rightarrow> warning \<Rightarrow> nat \<Rightarrow> warning_row" where
  "sample_row fm wn i =
     \<lparr>row_index = i, cells = rows fm ! i, elapsed_days = w_days_diff wn ! i,
      remaining_days = w_remaining_days wn ! i,
      status = status_of (w_remaining_days wn ! i)\<rparr>"

text \<open>
  Two tables hold the same dates when they have the same header and as many rows and
  every column converts to the same dates. Converting a start column keeps the dates.
\<close>

definition same_dates :: "world \<Rightarrow> dataframe \<Rightarrow> dataframe \<Rightarrow> bool" where
  "same_dates w df1 df =
     (columns df1 = columns df \<and> length (rows df1) = length (rows df) \<and>
      (\<forall>c. to_datetime_coerce (parse_date w) (column df1 c) =
           to_datetime_coerce (parse_date w) (column df c)))"

section \<open>A concrete laboratory\<close>

text \<open>
  Inputs for the examples. The parser knows five dates (as days since the epoch), reads
  the empty text as missing and rejects every other text, in every column. The disk has
  five folders:
  \<^verbatim>\<open>/lab/stability\<close> with one good document, one that cannot be opened and one without
  tables; \<^verbatim>\<open>/lab/retest\<close> with one document whose second row has no readable end date;
  \<^verbatim>\<open>/lab/mixed\<close> with one document that cannot be opened and a copy of the retest
  document; \<^verbatim>\<open>/lab/empty\<close> without documents; \<^verbatim>\<open>/lab/scrap\<close> with one document that cannot
  be opened. \<^verbatim>\<open>/lab/archive\<close> does not exist. The clock is read at one hour past midnight of
  2024-02-05 and one hour later at each further reading.
\<close>

definition lab_parse :: "string \<Rightarrow> parsed" where
  "lab_parse s =
     (case map_of [(''2023-01-01'', 19358), (''2023-03-01'', 19417), (''2023-07-20'', 19558),
                   (''2024-01-01'', 19723), (''2024-02-05'', 19758)] s of
        Some d \<Rightarrow> Parsed (d * ns_per_day)
      | None \<Rightarrow> if s = [] then Missing else Invalid)"

definition lab_strftime :: "time \<Rightarrow> string" where
  "lab_strftime t =
     (case map_of [(19358, ''2023-01-01''), (19417, ''2023-03-01''), (19558, ''2023-07-20''),
                   (19723, ''2024-01-01''), (19758, ''2024-02-05'')] (t div ns_per_day) of
        Some s \<Rightarrow> s
      | None \<Rightarrow> ''1970-01-01'')"

definition batch1_table :: "string list list" where
  "batch1_table =
     [[''batch'', ''start''],
      [''B1'', ''2023-01-01''],
      [''B2'', '' 2023-03-01 ''],
      [''B3'', ''2023-07-20''],
      [''B4'', ''2024-01-01''],
      [''B5'', ''pending'']]"

definition retest_table :: "string list list" where
  "retest_table =
     [[''batch'', ''start'', ''end''],
      [''R1'', ''2023-01-01'', ''2024-02-05''],
      [''R2'', ''2023-01-01'', ''ongoing'']]"

definition lab_world :: world where
  "lab_world =
     \<lparr>path_exists = (\<lambda>p. p \<in> set [''/lab/stability'', ''/lab/retest'', ''/lab/mixed'',
                                    ''/lab/empty'', ''/lab/scrap'']),
      rglob_docx = (\<lambda>p.
        if p = ''/lab/stability''
        then [''/lab/stability/batch1.docx'', ''/lab/stability/broken.docx'', ''/lab/stability/notes.docx'']
        else if p = ''/lab/retest'' then [''/lab/retest/r1.docx'']
        else if p = ''/lab/mixed'' then [''/lab/mixed/broken.docx'', ''/lab/mixed/r2.docx'']
        else if p = ''/lab/scrap'' then [''/lab/scrap/old.docx'']
        else []),
      Document = (\<lambda>f.
        if f = ''/lab/stability/batch1.docx'' then Inr [batch1_table]
        else if f = ''/lab/stability/notes.docx'' then Inr []
        else if f = ''/lab/retest/r1.docx'' then Inr [retest_table]
        else if f = ''/lab/mixed/r2.docx'' then Inr [retest_table]
        else Inl (PackageNotFoundError f)),
      parse_date = (\<lambda>cs. lab_parse),
      strftime = lab_strftime,
      to_excel = (\<lambda>df. Inr ''xlsx''),
      warnings_to_excel = (\<lambda>ws. Inr ''xlsx''),
      clock = (\<lambda>n. 19758 * ns_per_day + 3600000000000 * (int n + 1))\<rparr>"

definition stability_cfg :: folder_config where
  "stability_cfg = new_config ''stability'' ''/lab/stability'' ''start'' [] 180 365"

definition retest_cfg :: folder_config where
  "retest_cfg = new_config ''retest'' ''/lab/retest'' ''start'' ''end'' 180 365"

definition mixed_cfg :: folder_config where
  "mixed_cfg = new_config ''mixed'' ''/lab/mixed'' ''start'' ''end'' 180 365"

definition archive_cfg :: folder_config where
  "archive_cfg = new_config ''archive'' ''/lab/archive'' ''start'' [] 180 365"

definition empty_cfg :: folder_config where
  "empty_cfg = new_config ''empty'' ''/lab/empty'' ''start'' [] 180 365"

definition scrap_cfg :: folder_config where
  "scrap_cfg = new_config ''scrap'' ''/lab/scrap'' ''start'' [] 180 365"

definition stability_files :: "string list" where
  "stability_files = rglob_docx lab_world ''/lab/stability''"

definition stability_scan :: file_scan where
  "stability_scan = scan_files lab_world ''stability'' stability_files"

text \<open>The merged tables of the stability and the retest folder (their concatenations do not raise).\<close>

definition frame_of :: "pyerr + dataframe \<Rightarrow> dataframe" where
  "frame_of x = (case x of Inr df \<Rightarrow> df | Inl e \<Rightarrow> \<lparr>columns = [], rows = []\<rparr>)"

definition stability_frame :: dataframe where
  "stability_frame = frame_of (pd_concat (folder_tables stability_scan))"

definition retest_scan :: file_scan where
  "retest_scan = scan_files lab_world ''retest'' (rglob_docx lab_world ''/lab/retest'')"

definition retest_frame :: dataframe where
  "retest_frame = frame_of (pd_concat (folder_tables retest_scan))"

text \<open>The stability rule with a lower warning threshold.\<close>

definition early_rule :: rule where
  "early_rule = (rule stability_cfg)\<lparr>warning_days := 90\<rparr>"

text \<open>Two application states: one whose list is saved on a writable disk, one empty on a read-only disk.\<close>

definition saved_app :: app where
  "saved_app =
     \<lparr>folders = [stability_cfg],
      storage = \<lparr>config_file = Some (Object [(''folders'', [stability_cfg])]), writable = True\<rparr>\<rparr>"

definition blank_app :: app where
  "blank_app = \<lparr>folders = [], storage = \<lparr>config_file = None, writable = False\<rparr>\<rparr>"

section \<open>Lemmas on the DataFrame operations\<close>

lemma length_to_datetime_coerce: "length (to_datetime_coerce p cs) = length cs"
  by (simp add: to_datetime_coerce_def)

lemma length_column: "length (column df c) = length (rows df)"
  by (simp add: column_def)

lemma columns_set_column:
  "c \<in> set (columns df) \<Longrightarrow> columns (set_column df c vs) = columns df"
  by (simp add: set_column_def)

lemma length_rows_set_column:
  "length vs = length (rows df) \<Longrightarrow> length (rows (set_column df c vs)) = length (rows df)"
  by (simp add: set_column_def)

lemma map_of_overwrite:
  "map_of (map (\<lambda>(k, x). if k = c then (k, v) else (k, x)) r) c' =
     (if c' = c then (if c \<in> set (map fst r) then Some v else None) else map_of r c')"
  by (induction r) force+

lemma get_cell_assign: "get_cell (assign c v r) c' = (if c' = c then v else get_cell r c')"
proof (cases "c \<in> set (map fst r)")
  case True
  then show ?thesis
    by (simp add: get_cell_def assign_def map_of_overwrite)
next
  case False
  then have "map_of r c = None"
    by (simp add: map_of_eq_None_iff)
  with False show ?thesis
    by (auto simp: get_cell_def assign_def map_add_def split: option.splits)
qed

lemma column_set_column:
  "length vs = length (rows df) \<Longrightarrow>
     column (set_column df c vs) c' = (if c' = c then vs else column df c')"
  by (auto simp: column_def set_column_def get_cell_assign list_eq_iff_nth_eq)

lemma coerce_stamp: "coerce (to_datetime_cell p (stamp_cell t)) = t"
  by (cases t) simp_all

lemma to_datetime_coerce_stamp: "to_datetime_coerce p (map stamp_cell ts) = ts"
  by (simp add: to_datetime_coerce_def coerce_stamp comp_def)

lemma to_datetime_stamp: "to_datetime p (map stamp_cell ts) = Inr ts"
proof -
  have "\<And>q t. to_datetime_cell q (stamp_cell t) \<noteq> Invalid"
    by (case_tac t) simp_all
  then have "find (\<lambda>c. to_datetime_cell (p (map stamp_cell ts)) c = Invalid) (map stamp_cell ts) = None"
    by (simp add: find_None_iff)
  then show ?thesis
    by (simp add: to_datetime_def to_datetime_coerce_stamp)
qed

lemma to_datetime_length: "to_datetime p cs = Inr ts \<Longrightarrow> length ts = length cs"
  by (auto simp: to_datetime_def to_datetime_coerce_def split: option.splits cell.splits)

lemma zip_map_same: "zip (map f xs) (map g xs) = map (\<lambda>x. (f x, g x)) xs"
  by (induction xs) simp_all

lemma zip_replicate_left: "zip (replicate (length xs) a) xs = map (\<lambda>x. (a, x)) xs"
  by (induction xs) simp_all

lemma select_nth:
  "length m = length xs \<Longrightarrow>
     select m xs = map (\<lambda>i. xs ! i) (filter (\<lambda>i. m ! i) [0..<length xs])"
proof (induction m xs rule: list_induct2)
  case Nil
  show ?case by (simp add: select_def)
next
  case (Cons b m x xs)
  have "filter (\<lambda>i. (b # m) ! i) [0..<length (x # xs)]
          = (if b then [0] else []) @ map Suc (filter (\<lambda>i. m ! i) [0..<length xs])"
    by (simp add: upt_conv_Cons map_Suc_upt [symmetric] filter_map comp_def del: upt_Suc)
  with Cons.IH show ?case
    by (simp add: select_def comp_def)
qed

lemma series_single: "count_list (columns df) c = 1 \<Longrightarrow> series df c = Inr (column df c)"
  by (simp add: series_def)

lemma single_in_columns: "count_list cols c = 1 \<Longrightarrow> c \<in> set cols"
  by (metis count_list_0_iff zero_neq_one)

section \<open>Lemmas on the evaluator\<close>

lemma length_spec_start_dates: "length (spec_start_dates w r df) = length (rows df)"
  by (simp add: spec_start_dates_def length_to_datetime_coerce length_column)

lemma length_spec_end_dates: "length (spec_end_dates w e df now) = length (rows df)"
  by (cases e) (simp_all add: length_to_datetime_coerce length_column)

lemma length_spec_elapsed_days: "length (spec_elapsed_days w r df now) = length (rows df)"
  by (simp add: spec_elapsed_days_def length_spec_start_dates length_spec_end_dates)

lemma length_spec_remaining_days: "length (spec_remaining_days w r df now) = length (rows df)"
  by (simp add: spec_remaining_days_def length_spec_elapsed_days)

lemma columns_converted:
  "start_column r \<in> set (columns df) \<Longrightarrow> columns (converted w r df) = columns df"
  by (simp add: converted_def columns_set_column)

lemma length_rows_converted: "length (rows (converted w r df)) = length (rows df)"
  by (simp add: converted_def length_rows_set_column length_spec_start_dates)

lemma column_converted:
  "column (converted w r df) c =
     (if c = start_column r then map stamp_cell (spec_start_dates w r df) else column df c)"
  by (simp add: converted_def column_set_column length_spec_start_dates)

lemma dates_converted:
  "to_datetime_coerce (parse_date w) (column (converted w r df) c)
     = to_datetime_coerce (parse_date w) (column df c)"
  by (simp add: column_converted to_datetime_coerce_stamp) (simp add: spec_start_dates_def)

lemma same_dates_refl: "same_dates w df df"
  by (simp add: same_dates_def)

lemma same_dates_converted:
  "start_column r \<in> set (columns df1) \<Longrightarrow> same_dates w df1 df \<Longrightarrow>
     same_dates w (converted w r df1) df"
  by (simp add: same_dates_def columns_converted length_rows_converted dates_converted)

lemma same_dates_spec:
  assumes "same_dates w df1 df"
  shows "spec_start_dates w r df1 = spec_start_dates w r df"
    and "spec_end_dates w e df1 now = spec_end_dates w e df now"
    and "spec_elapsed_days w r df1 now = spec_elapsed_days w r df now"
    and "spec_remaining_days w r df1 now = spec_remaining_days w r df now"
    and "date_overflow w r df1 now = date_overflow w r df now"
    and "rule_warning w r df1 n = rule_warning w r df n"
    and "folder_results w r df1 n = folder_results w r df n"
proof -
  show a: "spec_start_dates w r df1 = spec_start_dates w r df"
    using assms by (simp add: same_dates_def spec_start_dates_def)
  show b: "\<And>e now. spec_end_dates w e df1 now = spec_end_dates w e df now"
    using assms by (case_tac e) (simp_all add: same_dates_def)
  show c: "\<And>now. spec_elapsed_days w r df1 now = spec_elapsed_days w r df now"
    by (simp add: spec_elapsed_days_def a b)
  show d: "\<And>now. spec_remaining_days w r df1 now = spec_remaining_days w r df now"
    by (simp add: spec_remaining_days_def c)
  show "date_overflow w r df1 now = date_overflow w r df now"
    by (simp add: date_overflow_def a b)
  show e: "\<And>n. rule_warning w r df1 n = rule_warning w r df n"
    by (simp add: rule_warning_def c d)
  show "folder_results w r df1 n = folder_results w r df n"
    using assms by (simp add: folder_results_def c e same_dates_def)
qed

lemma get_end_dates_converted:
  assumes "start_column r \<in> set (columns df)"
  shows "get_end_dates w (converted w r df) (end_column r) n =
           (if end_repeated (end_column r) (columns df)
            then (Inl (ValueError ''cannot assemble with duplicate keys''), n)
            else if end_configured (end_column r) (columns df)
            then (Inr (Series (spec_end_dates w (end_column r) df (clock w n))), n)
            else (Inr (Scalar (clock w n)), Suc n))"
  using assms
  by (cases "end_column r")
     (auto simp: columns_converted series_def dates_converted)

lemma pairs_of_spec:
  assumes "start_column r \<in> set (columns df)"
    and "\<not> end_repeated (end_column r) (columns df)"
    and "get_end_dates w (converted w r df) (end_column r) n = (Inr ends, n')"
  shows "pairs_of ends (spec_start_dates w r df) =
           zip (spec_end_dates w (end_column r) df (clock w n)) (spec_start_dates w r df)"
proof (cases "end_configured (end_column r) (columns df)")
  case True
  then show ?thesis
    using assms by (auto simp: get_end_dates_converted)
next
  case False
  then have "spec_end_dates w (end_column r) df (clock w n) =
               replicate (length (spec_start_dates w r df)) (Some (clock w n))"
    by (cases "end_column r") (auto simp: length_spec_start_dates)
  then show ?thesis
    using assms False by (auto simp: get_end_dates_converted zip_replicate_left)
qed

text \<open>One pass, start column present.\<close>

lemma apply_rule_present:
  assumes "start_column r \<in> set (columns df)"
  shows "apply_rule w r (df, res, n) =
           (if count_list (columns df) (start_column r) \<noteq> 1
            then ((df, res, n), Some (ValueError ''cannot assemble with duplicate keys''))
            else if end_repeated (end_column r) (columns df)
            then ((converted w r df, res, n),
                  Some (ValueError ''cannot assemble with duplicate keys''))
            else if date_overflow w r df (clock w n)
            then ((converted w r df, res,
                   if end_configured (end_column r) (columns df) then n else Suc n),
                  Some (OverflowError ''Overflow in int64 addition''))
            else ((converted w r df, res @ folder_results w r df n,
                   if end_configured (end_column r) (columns df) then n else Suc n), None))"
proof (cases "count_list (columns df) (start_column r) = 1")
  case False
  then show ?thesis
    using assms by (simp add: apply_rule_def series_def)
next
  case one: True
  have conv: "set_column df (start_column r)
                (map stamp_cell (to_datetime_coerce (parse_date w) (column df (start_column r))))
              = converted w r df"
    by (simp add: converted_def spec_start_dates_def)
  have starts: "to_datetime_coerce (parse_date w) (column df (start_column r))
                  = spec_start_dates w r df"
    by (simp add: spec_start_dates_def)
  show ?thesis
  proof (cases "end_repeated (end_column r) (columns df)")
    case True
    then show ?thesis
      using assms one
      by (simp add: apply_rule_def series_single Let_def starts converted_def [symmetric]
            get_end_dates_converted)
  next
    case nrep: False
    obtain ends n' where g: "get_end_dates w (converted w r df) (end_column r) n = (Inr ends, n')"
      and n': "n' = (if end_configured (end_column r) (columns df) then n else Suc n)"
      using assms nrep
      by (cases "end_configured (end_column r) (columns df)")
         (simp_all add: get_end_dates_converted)
    have p: "pairs_of ends (spec_start_dates w r df) =
           zip (spec_end_dates w (end_column r) df (clock w n)) (spec_start_dates w r df)"
      using pairs_of_spec [OF assms nrep g] .
    show ?thesis
      using assms one nrep
      by (simp add: apply_rule_def series_single Let_def starts converted_def [symmetric]
            g days_diff_of_def p date_overflow_def n' folder_results_def rule_warning_def
            spec_elapsed_days_def [symmetric] spec_remaining_days_def list_ex_iff)
  qed
qed

lemma apply_rule_skip:
  "start_column r \<notin> set (columns df) \<Longrightarrow> apply_rule w r (df, res, n) = ((df, res, n), None)"
  by (simp add: apply_rule_def)

lemma columns_apply_rule: "columns (fst (fst (apply_rule w r st))) = columns (fst st)"
proof (cases st)
  case (fields df res n)
  show ?thesis
  proof (cases "start_column r \<in> set (columns df)")
    case True
    then show ?thesis
      using fields by (simp add: apply_rule_present columns_converted)
  next
    case False
    then show ?thesis
      using fields by (simp add: apply_rule_skip)
  qed
qed

lemma columns_rules_loop: "columns (fst (fst (rules_loop w rs st))) = columns (fst st)"
proof (induction rs arbitrary: st)
  case Nil
  show ?case by simp
next
  case (Cons r rs)
  obtain st' exc where a: "apply_rule w r st = (st', exc)"
    by (cases "apply_rule w r st")
  have c: "columns (fst st') = columns (fst st)"
    using columns_apply_rule [of w r st] a by simp
  show ?case
    using a c Cons.IH [of st'] by (cases exc) simp_all
qed

lemma rules_loop_append:
  "rules_loop w (rs1 @ rs2) st =
     (case rules_loop w rs1 st of
        (st', None) \<Rightarrow> rules_loop w rs2 st'
      | (st', Some e) \<Rightarrow> (st', Some e))"
proof (induction rs1 arbitrary: st)
  case Nil
  show ?case by simp
next
  case (Cons r rs1)
  obtain st' exc where a: "apply_rule w r st = (st', exc)"
    by (cases "apply_rule w r st")
  show ?case
    using a Cons.IH [of st'] by (cases exc) simp_all
qed

lemma process_date_warnings_single:
  "process_date_warnings w n df [r] = apply_rule w r (df, [], n)"
  by (cases "apply_rule w r (df, [], n)") (auto simp: process_date_warnings_def split: option.splits)

text \<open>A pass that returns, on a table that holds the dates of \<open>df\<close>.\<close>

lemma folder_results_absent:
  "start_column r \<notin> set (columns df) \<Longrightarrow> folder_results w r df n = []"
  by (simp add: folder_results_def)

lemma apply_rule_returns:
  assumes sd: "same_dates w df1 df"
    and ret: "apply_rule w r (df1, res, n) = ((df2, res2, n2), None)"
  shows "same_dates w df2 df"
    and "res2 = res @ folder_results w r df n"
    and "n2 = (if reads_clock (columns df) r then Suc n else n)"
proof -
  have cols: "columns df1 = columns df"
    using sd by (simp add: same_dates_def)
  show "same_dates w df2 df"
    using sd ret cols
    by (cases "start_column r \<in> set (columns df)")
       (auto simp: apply_rule_present apply_rule_skip same_dates_converted split: if_splits)
  show "res2 = res @ folder_results w r df n"
    using ret cols same_dates_spec(7) [OF sd]
    by (cases "start_column r \<in> set (columns df)")
       (auto simp: apply_rule_present apply_rule_skip folder_results_absent split: if_splits)
  show "n2 = (if reads_clock (columns df) r then Suc n else n)"
    using ret cols
    by (cases "start_column r \<in> set (columns df)")
       (auto simp: apply_rule_present apply_rule_skip reads_clock_def split: if_splits)
qed

lemma rules_loop_returns:
  assumes "same_dates w df1 df"
    and "rules_loop w rs (df1, res, n) = ((df2, res2, n2), None)"
  shows "same_dates w df2 df \<and>
         res2 = res @ concat (map (\<lambda>(r, k). folder_results w r df k)
                                (zip rs (pass_ticks (columns df) n rs))) \<and>
         n2 = n + length (filter (reads_clock (columns df)) rs)"
  using assms
proof (induction rs arbitrary: df1 res n)
  case Nil
  then show ?case by simp
next
  case (Cons r rs)
  obtain dfa resa na exc where a: "apply_rule w r (df1, res, n) = ((dfa, resa, na), exc)"
    by (cases "apply_rule w r (df1, res, n)") auto
  have none: "exc = None"
    using Cons.prems(2) a by (cases exc) simp_all
  have rest: "rules_loop w rs (dfa, resa, na) = ((df2, res2, n2), None)"
    using Cons.prems(2) a none by simp
  note p = apply_rule_returns [OF Cons.prems(1) a [unfolded none]]
  from Cons.IH [OF p(1) rest] p(2) p(3) show ?case
    by auto
qed

section \<open>Lemmas on the warning rows\<close>

lemma warning_samples_of_nth:
  assumes m: "length (w_mask wn) = length (rows fm)"
    and d: "length (w_days_diff wn) = length (rows fm)"
    and r: "length (w_remaining_days wn) = length (rows fm)"
  shows "warning_samples_of fm wn =
           map (sample_row fm wn)
             (filter (\<lambda>i. w_mask wn ! i \<and> status_of (w_remaining_days wn ! i) \<noteq> OK)
                [0..<length (rows fm)])"
proof -
  let ?n = "length (rows fm)"
  let ?J = "filter (\<lambda>i. w_mask wn ! i) [0..<?n]"
  have p: "select (w_mask wn) (zip [0..<?n] (rows fm)) = map (\<lambda>i. (i, rows fm ! i)) ?J"
    using select_nth [of "w_mask wn" "zip [0..<?n] (rows fm)"] m by simp
  have e: "select (w_mask wn) (w_days_diff wn) = map (\<lambda>i. w_days_diff wn ! i) ?J"
    using select_nth [of "w_mask wn" "w_days_diff wn"] m d by simp
  have q: "select (w_mask wn) (w_remaining_days wn) = map (\<lambda>i. w_remaining_days wn ! i) ?J"
    using select_nth [of "w_mask wn" "w_remaining_days wn"] m r by simp
  show ?thesis
    unfolding warning_samples_of_def Let_def p e q
    by (simp add: zip_map_same filter_map comp_def sample_row_def conj_commute)
qed

lemma row_index_sample_row: "row_index (sample_row fm wn i) = i"
  by (simp add: sample_row_def)

lemma concat_collect_warnings:
  "concat (collect_warnings fm ws) = concat (map (warning_samples_of fm) ws)"
  by (induction ws) (simp_all add: collect_warnings_def)

lemma folder_rows:
  assumes "length (rows fm) = length (rows df)"
  shows "concat (collect_warnings fm (folder_results w r df n)) =
           map (sample_row fm (rule_warning w r df n))
             (filter (\<lambda>i. start_column r \<in> set (columns df) \<and>
                          exceeds (warning_days r) (spec_elapsed_days w r df (clock w n) ! i) \<and>
                          status_of (spec_remaining_days w r df (clock w n) ! i) \<noteq> OK)
                [0..<length (rows df)])"
proof -
  let ?wn = "rule_warning w r df n"
  let ?P = "\<lambda>i. start_column r \<in> set (columns df) \<and>
               exceeds (warning_days r) (spec_elapsed_days w r df (clock w n) ! i) \<and>
               status_of (spec_remaining_days w r df (clock w n) ! i) \<noteq> OK"
  have nth: "warning_samples_of fm ?wn =
      map (sample_row fm ?wn)
        (filter (\<lambda>i. w_mask ?wn ! i \<and> status_of (w_remaining_days ?wn ! i) \<noteq> OK)
           [0..<length (rows fm)])"
    by (rule warning_samples_of_nth)
       (simp_all add: rule_warning_def assms length_spec_elapsed_days
          length_spec_remaining_days)
  show ?thesis
  proof (cases "start_column r \<in> set (columns df) \<and>
                list_ex (exceeds (warning_days r)) (spec_elapsed_days w r df (clock w n))")
    case True
    have flt: "filter (\<lambda>i. w_mask ?wn ! i \<and> status_of (w_remaining_days ?wn ! i) \<noteq> OK)
               [0..<length (rows df)] = filter ?P [0..<length (rows df)]"
      using True
      by (intro filter_cong) (simp_all add: rule_warning_def length_spec_elapsed_days)
    from True show ?thesis
      by (simp add: folder_results_def concat_collect_warnings nth assms flt)
  next
    case False
    have "\<not> ?P i" if "i < length (rows df)" for i
    proof
      assume p: "?P i"
      from that have "spec_elapsed_days w r df (clock w n) ! i
                        \<in> set (spec_elapsed_days w r df (clock w n))"
        by (simp add: length_spec_elapsed_days)
      with p have "list_ex (exceeds (warning_days r)) (spec_elapsed_days w r df (clock w n))"
        unfolding list_ex_iff by blast
      with p False show False by blast
    qed
    then have "filter ?P [0..<length (rows df)] = []"
      by (simp add: filter_empty_conv)
    moreover have "folder_results w r df n = []"
      using False by (auto simp: folder_results_def)
    ultimately show ?thesis
      by (simp add: concat_collect_warnings)
  qed
qed

section \<open>Lemmas on the folder block\<close>

lemma format_column_shape:
  assumes "format_column w df c = Inr df'"
  shows "length (rows df') = length (rows df)"
    and "c \<in> set (columns df) \<Longrightarrow> columns df' = columns df"
  using assms
  by (auto simp: format_column_def series_def length_rows_set_column columns_set_column
        length_column dest!: to_datetime_length split: sum.splits if_splits)

lemma format_end_shape:
  assumes "format_end w df e = Inr df'"
  shows "length (rows df') = length (rows df)" and "columns df' = columns df"
  using assms by (cases e; auto split: if_splits dest: format_column_shape)+

lemma format_start_converted:
  assumes "count_list (columns df) (start_column r) = 1"
  shows "format_column w (converted w r df) (start_column r) = Inr (formatted w r df)"
  using assms single_in_columns [OF assms]
  by (simp add: format_column_def series_def columns_converted column_converted
        to_datetime_stamp formatted_def)

lemma length_rows_formatted: "length (rows (formatted w r df)) = length (rows df)"
  by (simp add: formatted_def length_rows_set_column length_rows_converted
        length_spec_start_dates)

lemma columns_formatted:
  "start_column r \<in> set (columns df) \<Longrightarrow> columns (formatted w r df) = columns df"
  by (simp add: formatted_def columns_set_column columns_converted)

lemma column_formatted_other:
  "c \<noteq> start_column r \<Longrightarrow> column (formatted w r df) c = column df c"
  by (simp add: formatted_def column_set_column length_rows_converted
        length_spec_start_dates column_converted)

text \<open>
  The block when the evaluator returns: the start column stands once in the header, the
  end column is not repeated, no difference of dates overflows.
\<close>

lemma evaluate_folder_present:
  assumes cat: "pd_concat (folder_tables sc) = Inr df"
    and one: "count_list (columns df) (start_column (rule fc)) = 1"
    and nrep: "\<not> end_repeated (end_column (rule fc)) (columns df)"
    and nov: "\<not> date_overflow w (rule fc) df (clock w (ticks s))"
  shows "evaluate_folder w fc sc s =
             (case format_end w (formatted w (rule fc) df) (end_column (rule fc)) of
                Inl e \<Rightarrow>
                  (s\<lparr>all_tables := all_tables s @ [formatted w (rule fc) df],
                     ticks := (if end_configured (end_column (rule fc)) (columns df)
                               then ticks s else Suc (ticks s))\<rparr>, Some e)
              | Inr fm3 \<Rightarrow>
                  (s\<lparr>all_tables := all_tables s @ [fm3],
                     all_warning_samples := all_warning_samples s @
                       collect_warnings fm3 (folder_results w (rule fc) df (ticks s)),
                     st_success := st_success s @
                       [(name fc, processed_files sc, length (failed_files sc))],
                     ticks := (if end_configured (end_column (rule fc)) (columns df)
                               then ticks s else Suc (ticks s))\<rparr>, None))"
proof -
  have ap: "apply_rule w (rule fc) (df, [], ticks s) =
              ((converted w (rule fc) df, folder_results w (rule fc) df (ticks s),
                if end_configured (end_column (rule fc)) (columns df)
                then ticks s else Suc (ticks s)), None)"
    using one nrep nov by (simp add: apply_rule_present [OF single_in_columns [OF one]])
  show ?thesis
    using one single_in_columns [OF one]
    by (simp add: evaluate_folder_def cat process_date_warnings_single ap
          columns_converted format_start_converted)
qed

lemma evaluate_folder_raising:
  assumes cat: "pd_concat (folder_tables sc) = Inr df"
    and present: "start_column (rule fc) \<in> set (columns df)"
    and bad: "count_list (columns df) (start_column (rule fc)) \<noteq> 1 \<or>
              end_repeated (end_column (rule fc)) (columns df) \<or>
              date_overflow w (rule fc) df (clock w (ticks s))"
  shows "\<exists>e. snd (evaluate_folder w fc sc s) = Some e"
proof -
  have "\<exists>e. snd (apply_rule w (rule fc) (df, [], ticks s)) = Some e"
    using bad by (auto simp: apply_rule_present [OF present])
  then obtain st e where "apply_rule w (rule fc) (df, [], ticks s) = (st, Some e)"
    by (cases "apply_rule w (rule fc) (df, [], ticks s)") auto
  then show ?thesis
    by (simp add: evaluate_folder_def cat process_date_warnings_single split: prod.splits)
qed

lemma evaluate_folder_absent:
  assumes cat: "pd_concat (folder_tables sc) = Inr df"
    and "start_column (rule fc) \<notin> set (columns df)"
  shows "evaluate_folder w fc sc s =
             (case format_end w df (end_column (rule fc)) of
                Inl e \<Rightarrow> (s\<lparr>all_tables := all_tables s @ [df], ticks := ticks s\<rparr>, Some e)
              | Inr fm3 \<Rightarrow>
                  (s\<lparr>all_tables := all_tables s @ [fm3],
                     all_warning_samples := all_warning_samples s @ collect_warnings fm3 [],
                     st_success := st_success s @
                       [(name fc, processed_files sc, length (failed_files sc))],
                     ticks := ticks s\<rparr>, None))"
  using assms(2)
  by (simp add: evaluate_folder_def cat process_date_warnings_single apply_rule_skip [OF assms(2)])

lemma evaluate_folder_None:
  assumes "evaluate_folder w fc sc s = (s', None)"
  shows "st_success s' = st_success s @ [(name fc, processed_files sc, length (failed_files sc))]"
    and "st_file_errors s' = st_file_errors s"
    and "st_error s' = st_error s"
    and "st_empty s' = st_empty s"
  using assms
  by (auto simp: evaluate_folder_def split: prod.splits sum.splits if_splits option.splits)

lemma evaluate_folder_Some:
  assumes "evaluate_folder w fc sc s = (s', Some e)"
  shows "st_success s' = st_success s"
    and "st_file_errors s' = st_file_errors s"
    and "st_error s' = st_error s"
    and "st_empty s' = st_empty s"
    and "all_warning_samples s' = all_warning_samples s"
  using assms
  by (auto simp: evaluate_folder_def split: prod.splits sum.splits if_splits option.splits)

text \<open>The block when it completes.\<close>

lemma evaluate_folder_completes:
  assumes cat: "pd_concat (folder_tables sc) = Inr df"
    and present: "start_column (rule fc) \<in> set (columns df)"
    and ok: "evaluate_folder w fc sc s = (s', None)"
  shows "\<exists>fm3. length (rows fm3) = length (rows df) \<and>
           all_warning_samples s' = all_warning_samples s @
             collect_warnings fm3 (folder_results w (rule fc) df (ticks s))"
proof -
  have good: "count_list (columns df) (start_column (rule fc)) = 1 \<and>
        \<not> end_repeated (end_column (rule fc)) (columns df) \<and>
        \<not> date_overflow w (rule fc) df (clock w (ticks s))"
    using evaluate_folder_raising [OF cat present, of w s] ok by auto
  then have ev: "evaluate_folder w fc sc s =
             (case format_end w (formatted w (rule fc) df) (end_column (rule fc)) of
                Inl e \<Rightarrow>
                  (s\<lparr>all_tables := all_tables s @ [formatted w (rule fc) df],
                     ticks := (if end_configured (end_column (rule fc)) (columns df)
                               then ticks s else Suc (ticks s))\<rparr>, Some e)
              | Inr fm3 \<Rightarrow>
                  (s\<lparr>all_tables := all_tables s @ [fm3],
                     all_warning_samples := all_warning_samples s @
                       collect_warnings fm3 (folder_results w (rule fc) df (ticks s)),
                     st_success := st_success s @
                       [(name fc, processed_files sc, length (failed_files sc))],
                     ticks := (if end_configured (end_column (rule fc)) (columns df)
                               then ticks s else Suc (ticks s))\<rparr>, None))"
    using evaluate_folder_present [OF cat] by blast
  from ev ok obtain fm3 where
    f3: "format_end w (formatted w (rule fc) df) (end_column (rule fc)) = Inr fm3"
    by (cases "format_end w (formatted w (rule fc) df) (end_column (rule fc))") auto
  have "length (rows fm3) = length (rows df)"
    using format_end_shape(1) [OF f3] by (simp add: length_rows_formatted)
  moreover have "all_warning_samples s' = all_warning_samples s @
             collect_warnings fm3 (folder_results w (rule fc) df (ticks s))"
    using ev ok f3 by auto
  ultimately show ?thesis by blast
qed

lemma spec_elapsed_days_nth:
  assumes "i < length (rows df)"
  shows "spec_elapsed_days w r df now ! i =
           days_between (spec_end_dates w (end_column r) df now ! i) (spec_start_dates w r df ! i)"
  using assms
  by (simp add: spec_elapsed_days_def length_spec_end_dates length_spec_start_dates)

lemma spec_remaining_days_nth:
  assumes "i < length (rows df)"
  shows "spec_remaining_days w r df now ! i =
           map_option (\<lambda>d. stability_days r - d) (spec_elapsed_days w r df now ! i)"
  using assms by (simp add: spec_remaining_days_def length_spec_elapsed_days)

text \<open>
  When the block completes, the rows of folder \<open>fc\<close> that enter the warning table are
  exactly those that pass both gates: elapsed days above the warning days, and at most 30
  remaining days; their status is OVERDUE up to 0 remaining days and NEAR above.
\<close>

lemma two_gate_when_folder_completes:
  assumes cat: "pd_concat (folder_tables sc) = Inr df"
    and c: "start_column (rule fc) \<in> set (columns df)"
    and i: "i < length (rows df)"
    and sd: "spec_start_dates w (rule fc) df ! i = Some a"
    and ed: "spec_end_dates w (end_column (rule fc)) df (clock w (ticks s)) ! i = Some b"
    and ex: "exact_days (rule fc)"
    and ok: "evaluate_folder w fc sc s = (s', None)"
  shows "\<exists>new. all_warning_samples s' = all_warning_samples s @ new \<and>
           ((\<exists>x \<in> set (concat new). row_index x = i) \<longleftrightarrow>
              (b - a) div ns_per_day > warning_days (rule fc) \<and>
              stability_days (rule fc) - (b - a) div ns_per_day \<le> 30) \<and>
           (\<forall>x \<in> set (concat new). row_index x = i \<longrightarrow>
              elapsed_days x = Some ((b - a) div ns_per_day) \<and>
              remaining_days x = Some (stability_days (rule fc) - (b - a) div ns_per_day) \<and>
              status x = (if stability_days (rule fc) - (b - a) div ns_per_day \<le> 0
                          then OVERDUE else NEAR))"
proof -
  let ?r = "rule fc"
  let ?d = "(b - a) div ns_per_day"
  have el: "spec_elapsed_days w ?r df (clock w (ticks s)) ! i = Some ?d"
    using sd ed by (simp add: spec_elapsed_days_nth [OF i])
  have rm: "spec_remaining_days w ?r df (clock w (ticks s)) ! i = Some (stability_days ?r - ?d)"
    using el by (simp add: spec_remaining_days_nth [OF i])
  from evaluate_folder_completes [OF cat c ok] obtain fm3 where
    l3: "length (rows fm3) = length (rows df)" and
    app: "all_warning_samples s' = all_warning_samples s @
            collect_warnings fm3 (folder_results w ?r df (ticks s))"
    by blast
  let ?new = "collect_warnings fm3 (folder_results w ?r df (ticks s))"
  let ?wn = "rule_warning w ?r df (ticks s)"
  have mem: "\<And>x. x \<in> set (concat ?new) \<and> row_index x = i \<longleftrightarrow>
               x = sample_row fm3 ?wn i \<and> ?d > warning_days ?r \<and>
               stability_days ?r - ?d \<le> 30"
    using i el rm c by (auto simp: folder_rows [OF l3] row_index_sample_row split: if_splits)
  have g1: "(\<exists>x \<in> set (concat ?new). row_index x = i) \<longleftrightarrow>
              ?d > warning_days ?r \<and> stability_days ?r - ?d \<le> 30"
    using mem by blast
  have sr: "elapsed_days (sample_row fm3 ?wn i) = Some ?d \<and>
            remaining_days (sample_row fm3 ?wn i) = Some (stability_days ?r - ?d) \<and>
            status (sample_row fm3 ?wn i) = status_of (Some (stability_days ?r - ?d))"
    using i el rm by (simp add: sample_row_def rule_warning_def)
  have g2: "\<forall>x \<in> set (concat ?new). row_index x = i \<longrightarrow>
              elapsed_days x = Some ?d \<and>
              remaining_days x = Some (stability_days ?r - ?d) \<and>
              status x = (if stability_days ?r - ?d \<le> 0 then OVERDUE else NEAR)"
  proof (intro ballI impI)
    fix x assume "x \<in> set (concat ?new)" and "row_index x = i"
    then have "x = sample_row fm3 ?wn i" and "stability_days ?r - ?d \<le> 30"
      using mem [of x] by blast+
    then show "elapsed_days x = Some ?d \<and>
              remaining_days x = Some (stability_days ?r - ?d) \<and>
              status x = (if stability_days ?r - ?d \<le> 0 then OVERDUE else NEAR)"
      using sr by (auto split: if_splits)
  qed
  from app g1 g2 show ?thesis by blast
qed

text \<open>
  The block does not complete when an end column other than the start column is
  configured and present and one of its cells is a text that cannot be read as a date:
  the second parse of that column raises (if nothing has raised before), no warning row
  of the folder is kept and the folder is not reported as a success.
\<close>

lemma unparseable_end_date_raises:
  assumes cat: "pd_concat (folder_tables sc) = Inr df"
    and c: "start_column (rule fc) \<in> set (columns df)"
    and e: "end_column (rule fc) = Some ec" "ec \<noteq> []" "ec \<in> set (columns df)"
      "ec \<noteq> start_column (rule fc)"
    and i: "i < length (rows df)"
    and bad: "to_datetime_cell (parse_date w (column df ec)) (get_cell (rows df ! i) ec) = Invalid"
  shows "\<exists>x. snd (evaluate_folder w fc sc s) = Some x"
    and "all_warning_samples (fst (evaluate_folder w fc sc s)) = all_warning_samples s"
    and "st_success (fst (evaluate_folder w fc sc s)) = st_success s"
proof -
  let ?r = "rule fc"
  let ?fm2 = "formatted w ?r df"
  have raises: "\<exists>x. snd (evaluate_folder w fc sc s) = Some x"
  proof (cases "count_list (columns df) (start_column ?r) = 1 \<and>
                \<not> end_repeated (end_column ?r) (columns df) \<and>
                \<not> date_overflow w ?r df (clock w (ticks s))")
    case False
    then show ?thesis
      using evaluate_folder_raising [OF cat c, of w s] by blast
  next
    case True
    have "get_cell (rows df ! i) ec \<in> set (column df ec)"
      using i by (auto simp: column_def)
    then have "find (\<lambda>c. to_datetime_cell (parse_date w (column df ec)) c = Invalid)
                 (column df ec) \<noteq> None"
      using bad by (auto simp: find_None_iff)
    then have "\<exists>x. to_datetime (parse_date w) (column df ec) = Inl x"
      by (auto simp: to_datetime_def split: option.splits cell.splits)
    moreover have "count_list (columns ?fm2) ec = 1"
      using True e c by (simp add: columns_formatted)
    ultimately have "\<exists>x. format_column w ?fm2 ec = Inl x"
      using e(4) by (auto simp: format_column_def series_def column_formatted_other)
    then obtain x where x: "format_end w ?fm2 (end_column ?r) = Inl x"
      using e c by (auto simp: columns_formatted)
    have ev: "evaluate_folder w fc sc s =
             (case format_end w (formatted w (rule fc) df) (end_column (rule fc)) of
                Inl e \<Rightarrow>
                  (s\<lparr>all_tables := all_tables s @ [formatted w (rule fc) df],
                     ticks := (if end_configured (end_column (rule fc)) (columns df)
                               then ticks s else Suc (ticks s))\<rparr>, Some e)
              | Inr fm3 \<Rightarrow>
                  (s\<lparr>all_tables := all_tables s @ [fm3],
                     all_warning_samples := all_warning_samples s @
                       collect_warnings fm3 (folder_results w (rule fc) df (ticks s)),
                     st_success := st_success s @
                       [(name fc, processed_files sc, length (failed_files sc))],
                     ticks := (if end_configured (end_column (rule fc)) (columns df)
                               then ticks s else Suc (ticks s))\<rparr>, None))"
      using evaluate_folder_present [OF cat] True by blast
    show ?thesis
      unfolding ev x by simp
  qed
  then obtain x where "snd (evaluate_folder w fc sc s) = Some x" ..
  then have ev: "evaluate_folder w fc sc s = (fst (evaluate_folder w fc sc s), Some x)"
    by (simp add: prod_eq_iff)
  show "\<exists>x. snd (evaluate_folder w fc sc s) = Some x"
    by (rule raises)
  show "all_warning_samples (fst (evaluate_folder w fc sc s)) = all_warning_samples s"
    by (rule evaluate_folder_Some(5) [OF ev])
  show "st_success (fst (evaluate_folder w fc sc s)) = st_success s"
    by (rule evaluate_folder_Some(1) [OF ev])
qed

text \<open>In the laboratory's stability folder rows 0 and 1 pass both gates, row 2 only the first.\<close>

lemma stability_report_example:
  "(case process_tables lab_world [stability_cfg] of
      Inl e \<Rightarrow> False
    | Inr r \<Rightarrow>
        map_option (map (\<lambda>x. (row_index x, elapsed_days x, remaining_days x, status x)))
          (combined_warnings r) =
          Some [(0, Some 400, Some (- 35), OVERDUE), (1, Some 341, Some 24, NEAR)] \<and>
        overdue_count r = 1 \<and> near_count r = 1 \<and> total_warnings r = 2) \<and>
   spec_elapsed_days lab_world (rule stability_cfg) stability_frame (clock lab_world 1) ! 2
     = Some 200 \<and>
   spec_remaining_days lab_world (rule stability_cfg) stability_frame (clock lab_world 1) ! 2
     = Some 165"
  by code_simp

section \<open>Lemmas on the file loop and the folder loop\<close>

lemma foldl_scan_file:
  "foldl (scan_file w nm) sc fs =
     \<lparr>folder_tables = folder_tables sc @
        concat (map (\<lambda>f. map (tag_table (path_name f) nm) (extract_tables_from_word w f)) fs),
      processed_files = processed_files sc +
        length (filter (\<lambda>f. extract_tables_from_word w f \<noteq> []) fs),
      failed_files = failed_files sc @
        map path_name (filter (\<lambda>f. extract_tables_from_word w f = []) fs)\<rparr>"
  by (induction fs arbitrary: sc) (simp_all add: scan_file_def Let_def)

lemma scan_files_eq:
  "scan_files w nm fs =
     \<lparr>folder_tables =
        concat (map (\<lambda>f. map (tag_table (path_name f) nm) (extract_tables_from_word w f)) fs),
      processed_files = length (filter (\<lambda>f. extract_tables_from_word w f \<noteq> []) fs),
      failed_files = map path_name (filter (\<lambda>f. extract_tables_from_word w f = []) fs)\<rparr>"
  by (simp add: scan_files_def foldl_scan_file)

lemma concat_tagged_filter:
  "concat (map (\<lambda>h. map (t h) (x h)) (filter (\<lambda>h. x h \<noteq> []) fs)) =
   concat (map (\<lambda>h. map (t h) (x h)) fs)"
  by (induction fs) simp_all

lemma run_folders_append:
  "run_folders w s (fs1 @ fs2) = run_folders w (run_folders w s fs1) fs2"
  by (simp add: run_folders_def)

lemma run_folders_Cons: "run_folders w s (fc # fs) = run_folders w (folder_step w s fc) fs"
  by (simp add: run_folders_def)

lemma folder_step_missing:
  "\<not> path_exists w (path fc) \<Longrightarrow>
     folder_step w s fc = s\<lparr>st_error := st_error s @ [(name fc, path_missing_message (path fc))]\<rparr>"
  by (simp add: folder_step_def process_folder_def)

lemma st_error_evaluate_folder: "st_error (fst (evaluate_folder w fc sc s)) = st_error s"
  by (auto simp: evaluate_folder_def split: prod.splits sum.splits if_splits option.splits)

lemma st_error_process_folder: "st_error (fst (process_folder w fc s)) = st_error s @
    (if path_exists w (path fc) then [] else [(name fc, path_missing_message (path fc))])"
  by (simp add: process_folder_def Let_def st_error_evaluate_folder)

lemma st_error_folder_step: "set (st_error s) \<subseteq> set (st_error (folder_step w s fc))"
proof (cases "process_folder w fc s")
  case (Pair s' exc)
  then have "set (st_error s) \<subseteq> set (st_error s')"
    using st_error_process_folder [of w fc s] by auto
  with Pair show ?thesis
    by (cases exc) (auto simp: folder_step_def)
qed

lemma st_error_run_folders: "set (st_error s) \<subseteq> set (st_error (run_folders w s fs))"
proof (induction fs arbitrary: s)
  case Nil
  show ?case by (simp add: run_folders_def)
next
  case (Cons fc fs)
  show ?case
    using st_error_folder_step [of s w fc] Cons.IH [of "folder_step w s fc"]
    by (auto simp: run_folders_Cons)
qed

lemma folder_step_no_data:
  assumes "\<not> produces_data w fc"
  shows "all_tables (folder_step w s fc) = all_tables s"
    and "all_warning_samples (folder_step w s fc) = all_warning_samples s"
    and "st_success (folder_step w s fc) = st_success s"
  using assms
  by (auto simp: produces_data_def folder_step_def process_folder_def Let_def scan_files_def)

lemma run_folders_no_data:
  assumes "\<forall>fc \<in> set fs. \<not> produces_data w fc"
  shows "all_tables (run_folders w s fs) = all_tables s \<and>
         all_warning_samples (run_folders w s fs) = all_warning_samples s \<and>
         st_success (run_folders w s fs) = st_success s"
  using assms
proof (induction fs arbitrary: s)
  case Nil
  show ?case by (simp add: run_folders_def)
next
  case (Cons fc fs)
  then show ?case
    by (simp add: run_folders_Cons folder_step_no_data)
qed

text \<open>
  A file whose extraction yields no table is recorded in the folder's failed files and
  contributes nothing else; the tables of the folder are those of its other files, in
  order; and when the folder's block completes without an exception, the folder is
  reported as a success with the number of files that yielded tables and the number of
  failed files, and its failed files are listed under its name.
\<close>

lemma failed_file_counted_when_block_completes:
  assumes ex: "path_exists w (path fc)"
    and f: "f \<in> set (rglob_docx w (path fc))" "extract_tables_from_word w f = []"
    and g: "g \<in> set (rglob_docx w (path fc))" "extract_tables_from_word w g \<noteq> []"
    and ok: "process_folder w fc s = (s', None)"
  shows "path_name f \<in> set (failed_files (scan_files w (name fc) (rglob_docx w (path fc)))) \<and>
         failed_files (scan_files w (name fc) (rglob_docx w (path fc))) =
           map path_name (filter (\<lambda>h. extract_tables_from_word w h = []) (rglob_docx w (path fc))) \<and>
         folder_tables (scan_files w (name fc) (rglob_docx w (path fc))) =
           concat (map (\<lambda>h. map (tag_table (path_name h) (name fc)) (extract_tables_from_word w h))
                    (filter (\<lambda>h. extract_tables_from_word w h \<noteq> []) (rglob_docx w (path fc)))) \<and>
         map_of (st_file_errors s') (name fc) =
           Some (map path_name (filter (\<lambda>h. extract_tables_from_word w h = []) (rglob_docx w (path fc)))) \<and>
         st_success s' = st_success s @
           [(name fc,
             length (filter (\<lambda>h. extract_tables_from_word w h \<noteq> []) (rglob_docx w (path fc))),
             length (filter (\<lambda>h. extract_tables_from_word w h = []) (rglob_docx w (path fc))))]"
proof -
  let ?fs = "rglob_docx w (path fc)"
  let ?sc = "scan_files w (name fc) ?fs"
  have ne: "?fs \<noteq> []" using f by auto
  have failed: "failed_files ?sc = map path_name (filter (\<lambda>h. extract_tables_from_word w h = []) ?fs)"
    by (simp add: scan_files_eq)
  have fne: "failed_files ?sc \<noteq> []"
    using f by (auto simp: failed filter_empty_conv)
  have mem: "path_name f \<in> set (failed_files ?sc)"
    using f by (auto simp: failed)
  have tabs: "folder_tables ?sc =
           concat (map (\<lambda>h. map (tag_table (path_name h) (name fc)) (extract_tables_from_word w h))
                    (filter (\<lambda>h. extract_tables_from_word w h \<noteq> []) ?fs))"
    by (simp add: scan_files_eq concat_tagged_filter)
  have tne: "folder_tables ?sc \<noteq> []"
    using g by (auto simp: scan_files_eq)
  let ?s1 = "s\<lparr>st_file_errors := AList.update (name fc) (failed_files ?sc) (st_file_errors s)\<rparr>"
  have ev: "evaluate_folder w fc ?sc ?s1 = (s', None)"
    using ok ex ne fne tne by (simp add: process_folder_def Let_def)
  have "st_file_errors s' = AList.update (name fc) (failed_files ?sc) (st_file_errors s)"
    using evaluate_folder_None(2) [OF ev] by simp
  then have fe: "map_of (st_file_errors s') (name fc) = Some (failed_files ?sc)"
    by (simp add: update_conv')
  have su: "st_success s' = st_success s @
      [(name fc, processed_files ?sc, length (failed_files ?sc))]"
    using evaluate_folder_None(1) [OF ev] by simp
  have pr: "processed_files ?sc = length (filter (\<lambda>h. extract_tables_from_word w h \<noteq> []) ?fs)"
    by (simp add: scan_files_eq)
  show ?thesis
    using mem tabs fe su by (simp add: failed pr)
qed

text \<open>A folder all of whose files fail is listed in the per-file errors and nowhere else.\<close>

lemma all_files_failing_example:
  "path_exists lab_world (path scrap_cfg) \<and>
   rglob_docx lab_world (path scrap_cfg) = [''/lab/scrap/old.docx''] \<and>
   extract_tables_from_word lab_world ''/lab/scrap/old.docx'' = [] \<and>
   st_file_errors (run_folders lab_world initial_state [scrap_cfg]) = [(''scrap'', [''old.docx''])] \<and>
   st_success (run_folders lab_world initial_state [scrap_cfg]) = [] \<and>
   st_error (run_folders lab_world initial_state [scrap_cfg]) = [] \<and>
   st_empty (run_folders lab_world initial_state [scrap_cfg]) = []"
  by code_simp

section \<open>C1: the two-gate classification\<close>

text \<open>
  C1. For every row whose dates parse, the row enters the final warning report if and only
  if its elapsed days exceed the warning days (strictly) and its remaining days are at
  most 30; it is OVERDUE up to 0 remaining days and NEAR from 1 to 30.

  Lemma \<open>two_gate_when_folder_completes\<close> proves this for every folder whose block
  completes. The block does not always complete: the evaluator parses the end column with
  \<^verbatim>\<open>errors='coerce'\<close>, but the folder loop parses it again without, and that call raises on
  a text the first one turned into \<^verbatim>\<open>NaT\<close> (lemma \<open>unparseable_end_date_raises\<close>). The
  handler of the folder then records an error and the warning rows of the whole folder
  are lost. In the laboratory's retest folder row 0 has both dates, 400 elapsed days
  (above 180) and -35 remaining days, so it is OVERDUE and belongs in the report; row 1
  has the end date \<^verbatim>\<open>ongoing\<close>. The program reports no warning row at all and lists the
  folder as failed.
\<close>

theorem unparseable_end_date_loses_folder_warnings:
  "spec_start_dates lab_world (rule retest_cfg) retest_frame ! 0 = Some (19358 * ns_per_day) \<and>
   spec_end_dates lab_world (end_column (rule retest_cfg)) retest_frame (clock lab_world 1) ! 0
     = Some (19758 * ns_per_day) \<and>
   spec_elapsed_days lab_world (rule retest_cfg) retest_frame (clock lab_world 1) ! 0
     = Some 400 \<and>
   warning_days (rule retest_cfg) = 180 \<and>
   spec_remaining_days lab_world (rule retest_cfg) retest_frame (clock lab_world 1) ! 0
     = Some (- 35) \<and>
   (case process_tables lab_world [retest_cfg] of
      Inl e \<Rightarrow> False
    | Inr r \<Rightarrow>
        combined_warnings r = None \<and> total_warnings r = 0 \<and>
        all_warning_samples (final r) = [] \<and>
        st_error (final r) = [(''retest'', ''ongoing'')] \<and>
        st_success (final r) = [])"
  by code_simp

section \<open>C2: mutations of the configuration and the saved file\<close>

text \<open>
  C2, as amended. On a writable disk, adding an entry, deleting one entry, clearing all
  configuration and an accepted import each save the new folder list at once: the list
  read back from the file is the list in memory. Clearing the current configuration
  empties the list in memory only and leaves the file as it was.
\<close>

theorem saving_mutations_are_flushed:
  assumes "writable (storage a)"
  shows "load_config (storage (add_folder fc a)) = folders (add_folder fc a) \<and>
         folders (add_folder fc a) = folders a @ [fc] \<and>
         (\<forall>a'. delete_folder i a = Some a' \<longrightarrow>
            load_config (storage a') = folders a' \<and>
            folders a' = take i (folders a) @ drop (Suc i) (folders a)) \<and>
         load_config (storage (clear_all a)) = folders (clear_all a) \<and>
         folders (clear_all a) = [] \<and>
         (\<forall>a'. import_config doc a = (a', True) \<longrightarrow> load_config (storage a') = folders a') \<and>
         folders (clear_current a) = [] \<and>
         storage (clear_current a) = storage a"
  using assms
  by (cases doc)
     (auto simp: add_folder_def delete_folder_def clear_all_def clear_current_def
        save_config_def Let_def split: option.splits if_splits)

text \<open>The theorem at the saved laboratory state.\<close>

theorem saving_mutations_are_flushed_witness:
  "writable (storage saved_app) \<and>
   load_config (storage (add_folder retest_cfg saved_app)) = [stability_cfg, retest_cfg] \<and>
   folders (add_folder retest_cfg saved_app) = [stability_cfg, retest_cfg] \<and>
   delete_folder 0 saved_app =
     Some \<lparr>folders = [], storage = \<lparr>config_file = Some (Object [(''folders'', [])]), writable = True\<rparr>\<rparr> \<and>
   load_config \<lparr>config_file = Some (Object [(''folders'', [])]), writable = True\<rparr> = [] \<and>
   load_config (storage (clear_all saved_app)) = [] \<and>
   import_config (Object [(''folders'', [retest_cfg])]) saved_app =
     (\<lparr>folders = [retest_cfg],
       storage = \<lparr>config_file = Some (Object [(''folders'', [retest_cfg])]), writable = True\<rparr>\<rparr>, True) \<and>
   load_config \<lparr>config_file = Some (Object [(''folders'', [retest_cfg])]), writable = True\<rparr> = [retest_cfg] \<and>
   storage (clear_current saved_app) = storage saved_app"
proof -
  have h: "writable (storage saved_app)"
    by (simp add: saved_app_def)
  have d: "delete_folder 0 saved_app =
     Some \<lparr>folders = [], storage = \<lparr>config_file = Some (Object [(''folders'', [])]), writable = True\<rparr>\<rparr>"
    by (simp add: delete_folder_def saved_app_def save_config_def)
  have i: "import_config (Object [(''folders'', [retest_cfg])]) saved_app =
     (\<lparr>folders = [retest_cfg],
       storage = \<lparr>config_file = Some (Object [(''folders'', [retest_cfg])]), writable = True\<rparr>\<rparr>, True)"
    by (simp add: saved_app_def save_config_def)
  have f: "folders saved_app = [stability_cfg]"
    by (simp add: saved_app_def)
  show ?thesis
    using h d i f
      saving_mutations_are_flushed [OF h, of retest_cfg 0 "Object [(''folders'', [retest_cfg])]"]
    by simp
qed

text \<open>
  C2 as stated fails: after "clear the current configuration" the list in memory is empty
  while the file still holds the stability entry.
\<close>

theorem clear_current_is_not_saved:
  "folders (clear_current saved_app) = [] \<and>
   load_config (storage (clear_current saved_app)) = [stability_cfg]"
  by code_simp

section \<open>C3: the end date of a row\<close>

text \<open>
  C3, as amended. In a call of the evaluator that returns, with rules whose day counts
  are below \<open>2 ^ 52\<close> in magnitude, the results are, rule by rule in the order of the
  rules, the warning record of each rule whose start column is among the table's columns
  and under which some row exceeds the warning days. The elapsed days in the record of a
  rule are, row by row, the whole days from the parsed start date to the end date; the
  end dates are the parsed cells of the end column when that column is configured and
  among the table's columns, and otherwise the one clock reading taken in the pass of
  this rule, the same for all rows. The clock is read once in every pass of a rule that
  has its start column and no such end column, and in no other pass: \<open>pass_ticks\<close> counts
  the readings taken before each pass.
\<close>

theorem end_date_selection:
  assumes ret: "process_date_warnings w n df rs = ((df', results, n'), None)"
    and exact: "\<forall>r \<in> set rs. exact_days r"
  shows "results = concat (map (\<lambda>(r, k). folder_results w r df k)
                             (zip rs (pass_ticks (columns df) n rs))) \<and>
         n' = n + length (filter (reads_clock (columns df)) rs) \<and>
         (\<forall>r k. \<forall>wn \<in> set (folder_results w r df k).
            w_days_diff wn =
              map (\<lambda>(e, s). days_between e s)
                (zip (spec_end_dates w (end_column r) df (clock w k)) (spec_start_dates w r df)))"
proof -
  have "results = concat (map (\<lambda>(r, k). folder_results w r df k)
                             (zip rs (pass_ticks (columns df) n rs))) \<and>
         n' = n + length (filter (reads_clock (columns df)) rs)"
    using rules_loop_returns [OF same_dates_refl ret [unfolded process_date_warnings_def]]
    by simp
  moreover have "\<forall>r k. \<forall>wn \<in> set (folder_results w r df k).
            w_days_diff wn =
              map (\<lambda>(e, s). days_between e s)
                (zip (spec_end_dates w (end_column r) df (clock w k)) (spec_start_dates w r df))"
    by (simp add: folder_results_def rule_warning_def spec_elapsed_days_def)
  ultimately show ?thesis by blast
qed

text \<open>
  The theorem at the retest table, for the retest rule (end column \<^verbatim>\<open>end\<close>) followed by
  the stability rule (no end column): the first record has the days up to the end cells,
  400 and undefined, the second the days up to the one clock reading, 400 and 400.
\<close>

theorem end_date_selection_witness:
  "snd (process_date_warnings lab_world 1 retest_frame [rule retest_cfg, rule stability_cfg]) = None \<and>
   exact_days (rule retest_cfg) \<and> exact_days (rule stability_cfg) \<and>
   end_configured (end_column (rule retest_cfg)) (columns retest_frame) \<and>
   \<not> end_configured (end_column (rule stability_cfg)) (columns retest_frame) \<and>
   map w_days_diff (fst (snd (fst (process_date_warnings lab_world 1 retest_frame
     [rule retest_cfg, rule stability_cfg])))) = [[Some 400, None], [Some 400, Some 400]] \<and>
   snd (snd (fst (process_date_warnings lab_world 1 retest_frame
     [rule retest_cfg, rule stability_cfg]))) = 2 \<and>
   spec_end_dates lab_world (end_column (rule retest_cfg)) retest_frame (clock lab_world 1)
     = [Some (19758 * ns_per_day), None] \<and>
   spec_end_dates lab_world (end_column (rule stability_cfg)) retest_frame (clock lab_world 1)
     = [Some (clock lab_world 1), Some (clock lab_world 1)]"
proof -
  let ?rs = "[rule retest_cfg, rule stability_cfg]"
  let ?P = "process_date_warnings lab_world 1 retest_frame ?rs"
  have h0: "snd ?P = None"
    by code_simp
  then have ret: "?P = ((fst (fst ?P), fst (snd (fst ?P)), snd (snd (fst ?P))), None)"
    by (simp add: prod_eq_iff)
  have x1: "exact_days (rule retest_cfg)"
    by code_simp
  have x2: "exact_days (rule stability_cfg)"
    by code_simp
  have ex: "\<forall>r \<in> set ?rs. exact_days r"
    using x1 x2 by simp
  have c1: "end_configured (end_column (rule retest_cfg)) (columns retest_frame)"
    by code_simp
  have c2: "\<not> end_configured (end_column (rule stability_cfg)) (columns retest_frame)"
    by code_simp
  have e1: "map w_days_diff (concat (map (\<lambda>(r, k). folder_results lab_world r retest_frame k)
              (zip ?rs (pass_ticks (columns retest_frame) 1 ?rs))))
            = [[Some 400, None], [Some 400, Some 400]]"
    by code_simp
  have e2: "1 + length (filter (reads_clock (columns retest_frame)) ?rs) = 2"
    by code_simp
  have e3: "spec_end_dates lab_world (end_column (rule retest_cfg)) retest_frame (clock lab_world 1)
     = [Some (19758 * ns_per_day), None]"
    by code_simp
  have e4: "spec_end_dates lab_world (end_column (rule stability_cfg)) retest_frame
      (clock lab_world 1) = [Some (clock lab_world 1), Some (clock lab_world 1)]"
    by code_simp
  note t = end_date_selection [OF ret ex]
  from t e1 have d1: "map w_days_diff (fst (snd (fst ?P))) = [[Some 400, None], [Some 400, Some 400]]"
    by simp
  from t e2 have d2: "snd (snd (fst ?P)) = 2"
    by simp
  show ?thesis
    using h0 x1 x2 c1 c2 d1 d2 e3 e4 by blast
qed

text \<open>
  C3 as stated has the clock read once per call of the evaluator. Called on the stability
  table with two rules without end column, after 22 readings of the laboratory's clock,
  the evaluator reads the clock in each pass, at 23:00 and at midnight: row 0 has 400
  elapsed days under the first rule and 401 under the second.
\<close>

theorem clock_is_read_once_per_rule:
  "snd (process_date_warnings lab_world 22 stability_frame [rule stability_cfg, early_rule]) = None \<and>
   end_column (rule stability_cfg) = None \<and> end_column early_rule = None \<and>
   start_column (rule stability_cfg) = ''start'' \<and> start_column early_rule = ''start'' \<and>
   map (\<lambda>wn. (w_warning_days wn, w_days_diff wn ! 0))
     (fst (snd (fst (process_date_warnings lab_world 22 stability_frame
        [rule stability_cfg, early_rule])))) = [(180, Some 400), (90, Some 401)] \<and>
   snd (snd (fst (process_date_warnings lab_world 22 stability_frame
     [rule stability_cfg, early_rule]))) = 24 \<and>
   clock lab_world 22 = 19758 * ns_per_day + 23 * 3600000000000 \<and>
   clock lab_world 23 = 19759 * ns_per_day"
  by code_simp

section \<open>C4: a start date that does not parse\<close>



section \<open>C5: a file whose extraction fails\<close>

text \<open>
  C5. A file whose extraction fails is recorded as failed and skipped, the other files of
  the folder are processed, and the folder still reports a success with the number of
  processed and of failed files.

  Lemma \<open>failed_file_counted_when_block_completes\<close> proves this for every folder in which
  some file yields a table and whose block completes. The block does not always
  complete, by the second parse of the end column described under C1. In the
  laboratory's mixed folder one document cannot be opened and the other holds a table
  whose second row has the end date \<^verbatim>\<open>ongoing\<close>. The file loop records the first as failed
  and processes the second, so the folder should report a success with one processed and
  one failed file. The program reports no success for the folder: it lists the folder as
  failed with the message of the parser, and the count of processed files is lost.
\<close>

theorem failed_file_beside_unreadable_end_date_reports_no_success:
  "path_exists lab_world (path mixed_cfg) \<and>
   rglob_docx lab_world (path mixed_cfg) = [''/lab/mixed/broken.docx'', ''/lab/mixed/r2.docx''] \<and>
   extract_tables_from_word lab_world ''/lab/mixed/broken.docx'' = [] \<and>
   map rows (extract_tables_from_word lab_world ''/lab/mixed/r2.docx'') =
     [[[(''batch'', Text ''R1''), (''start'', Text ''2023-01-01''), (''end'', Text ''2024-02-05'')],
       [(''batch'', Text ''R2''), (''start'', Text ''2023-01-01''), (''end'', Text ''ongoing'')]]] \<and>
   failed_files (scan_files lab_world (name mixed_cfg) (rglob_docx lab_world (path mixed_cfg)))
     = [''broken.docx''] \<and>
   processed_files (scan_files lab_world (name mixed_cfg) (rglob_docx lab_world (path mixed_cfg)))
     = 1 \<and>
   length (folder_tables (scan_files lab_world (name mixed_cfg)
     (rglob_docx lab_world (path mixed_cfg)))) = 1 \<and>
   st_success (run_folders lab_world initial_state [mixed_cfg]) = [] \<and>
   st_error (run_folders lab_world initial_state [mixed_cfg]) = [(''mixed'', ''ongoing'')] \<and>
   st_file_errors (run_folders lab_world initial_state [mixed_cfg]) = [(''mixed'', [''broken.docx''])] \<and>
   all_warning_samples (run_folders lab_world initial_state [mixed_cfg]) = []"
  by code_simp

section \<open>C6: a folder whose path does not exist\<close>

text \<open>
  C6. A folder whose path does not exist adds one entry to the error list and changes
  nothing else (no table, no warning row, no clock reading); the loop goes on with the
  next folder from that state; whatever the folders before and after it do, its entry is
  in the error list the loop ends with; and an exception that leaves the body of any folder becomes an
  entry of the error list, after which the remaining folders are processed.
\<close>

theorem missing_folder_is_isolated:
  assumes "\<not> path_exists w (path fc)"
  shows "folder_step w s fc =
           s\<lparr>st_error := st_error s @ [(name fc, path_missing_message (path fc))]\<rparr> \<and>
         run_folders w s (fs1 @ fc # fs2) =
           run_folders w
             ((run_folders w s fs1)\<lparr>st_error := st_error (run_folders w s fs1) @
                 [(name fc, path_missing_message (path fc))]\<rparr>) fs2 \<and>
         (name fc, path_missing_message (path fc)) \<in>
           set (st_error (run_folders w initial_state (fs1 @ fc # fs2))) \<and>
         (\<forall>g s0 s' e rest. process_folder w g s0 = (s', Some e) \<longrightarrow>
            run_folders w s0 (g # rest) =
              run_folders w (s'\<lparr>st_error := st_error s' @ [(name g, str_of e)]\<rparr>) rest)"
proof -
  have a: "folder_step w s fc =
           s\<lparr>st_error := st_error s @ [(name fc, path_missing_message (path fc))]\<rparr>"
    using assms by (rule folder_step_missing)
  have b: "run_folders w s (fs1 @ fc # fs2) =
           run_folders w
             ((run_folders w s fs1)\<lparr>st_error := st_error (run_folders w s fs1) @
                 [(name fc, path_missing_message (path fc))]\<rparr>) fs2"
    by (simp add: run_folders_append run_folders_Cons folder_step_missing [OF assms])
  let ?mid = "(run_folders w initial_state fs1)\<lparr>st_error := st_error (run_folders w initial_state fs1) @
                 [(name fc, path_missing_message (path fc))]\<rparr>"
  have "(name fc, path_missing_message (path fc)) \<in> set (st_error ?mid)" by simp
  then have "(name fc, path_missing_message (path fc)) \<in> set (st_error (run_folders w ?mid fs2))"
    using st_error_run_folders [of ?mid w fs2] by blast
  then have c: "(name fc, path_missing_message (path fc)) \<in>
           set (st_error (run_folders w initial_state (fs1 @ fc # fs2)))"
    by (simp add: run_folders_append run_folders_Cons folder_step_missing [OF assms])
  have d: "\<forall>g s0 s' e rest. process_folder w g s0 = (s', Some e) \<longrightarrow>
            run_folders w s0 (g # rest) =
              run_folders w (s'\<lparr>st_error := st_error s' @ [(name g, str_of e)]\<rparr>) rest"
    by (simp add: run_folders_Cons folder_step_def)
  from a b c d show ?thesis by blast
qed

text \<open>
  The theorem at the archive folder, placed between the retest folder, whose body raises,
  and the stability folder.
\<close>

theorem missing_folder_is_isolated_witness:
  "\<not> path_exists lab_world (path archive_cfg) \<and>
   folder_step lab_world initial_state archive_cfg =
     initial_state\<lparr>st_error := st_error initial_state @
       [(name archive_cfg, path_missing_message (path archive_cfg))]\<rparr> \<and>
   (name archive_cfg, path_missing_message (path archive_cfg)) \<in>
     set (st_error (run_folders lab_world initial_state ([retest_cfg] @ archive_cfg # [stability_cfg]))) \<and>
   snd (process_folder lab_world retest_cfg initial_state) = Some (DateParseError ''ongoing'') \<and>
   run_folders lab_world initial_state (retest_cfg # [archive_cfg, stability_cfg]) =
     run_folders lab_world
       ((fst (process_folder lab_world retest_cfg initial_state))
          \<lparr>st_error := st_error (fst (process_folder lab_world retest_cfg initial_state)) @
             [(name retest_cfg, str_of (DateParseError ''ongoing''))]\<rparr>)
       [archive_cfg, stability_cfg]"
proof -
  let ?X = "process_folder lab_world retest_cfg initial_state"
  have h: "\<not> path_exists lab_world (path archive_cfg)"
    by code_simp
  have sn: "snd ?X = Some (DateParseError ''ongoing'')"
    by code_simp
  then have r: "?X = (fst ?X, Some (DateParseError ''ongoing''))"
    by (simp add: prod_eq_iff)
  note t = missing_folder_is_isolated [OF h, of initial_state "[retest_cfg]" "[stability_cfg]"]
  from t have c1: "folder_step lab_world initial_state archive_cfg =
     initial_state\<lparr>st_error := st_error initial_state @
       [(name archive_cfg, path_missing_message (path archive_cfg))]\<rparr>"
    by blast
  from t have c2: "(name archive_cfg, path_missing_message (path archive_cfg)) \<in>
     set (st_error (run_folders lab_world initial_state ([retest_cfg] @ archive_cfg # [stability_cfg])))"
    by blast
  from t r have c3: "run_folders lab_world initial_state (retest_cfg # [archive_cfg, stability_cfg]) =
     run_folders lab_world
       ((fst ?X)\<lparr>st_error := st_error (fst ?X) @
             [(name retest_cfg, str_of (DateParseError ''ongoing''))]\<rparr>)
       [archive_cfg, stability_cfg]"
    by blast
  show ?thesis
    using h sn c1 c2 c3 by blast
qed

section \<open>C7: export followed by import\<close>

text \<open>
  C7. Whenever the configuration is exported, the exported document is the object with
  the key \<^verbatim>\<open>folders\<close> holding the folder list, and importing that document into any
  application state is accepted and makes the list in memory equal to the exported list,
  in the same order. (Export is offered for a non-empty list only.)
\<close>

theorem export_import_round_trip:
  assumes "export_config a = Some doc"
  shows "doc = Object [(''folders'', folders a)] \<and>
         snd (import_config doc b) \<and>
         folders (fst (import_config doc b)) = folders a"
  using assms by (auto simp: export_config_def split: if_splits)

text \<open>The theorem for the saved laboratory state, imported into the empty state.\<close>

theorem export_import_round_trip_witness:
  "export_config saved_app = Some (Object [(''folders'', [stability_cfg])]) \<and>
   snd (import_config (Object [(''folders'', [stability_cfg])]) blank_app) \<and>
   folders (fst (import_config (Object [(''folders'', [stability_cfg])]) blank_app)) = folders saved_app"
proof -
  have h: "export_config saved_app = Some (Object [(''folders'', [stability_cfg])])"
    by (simp add: export_config_def saved_app_def)
  show ?thesis
    using h export_import_round_trip [OF h, of blank_app] by simp
qed

section \<open>C8: the empty state\<close>

text \<open>
  C8. When no configured folder produces data, the run ends without an exception and
  returns a report whose merged table and warning table (and their buffers) are absent,
  whose counts of OVERDUE, NEAR and of all warning rows are zero and whose list of
  successful folders is empty; for the empty configuration the report is the initial
  one. The spreadsheet writer, which could raise, is not called.
\<close>

theorem no_data_gives_empty_report:
  assumes "\<forall>fc \<in> set cfg. \<not> produces_data w fc"
  shows "(case process_tables w cfg of
            Inl e \<Rightarrow> False
          | Inr r \<Rightarrow>
              merged_all r = None \<and> excel_buffer r = None \<and>
              combined_warnings r = None \<and> warning_buffer r = None \<and>
              overdue_count r = 0 \<and> near_count r = 0 \<and> total_warnings r = 0 \<and>
              st_success (final r) = []) \<and>
         process_tables w [] =
           Inr \<lparr>final = initial_state, merged_all = None, excel_buffer = None,
                combined_warnings = None, status_summary = [], warning_buffer = None,
                current_time = clock w 0\<rparr>"
  using run_folders_no_data [OF assms, of initial_state]
  by (simp add: process_tables_def build_merged_def build_warnings_def Let_def
        overdue_count_def near_count_def total_warnings_def
        series_get_def initial_state_def run_folders_def)

text \<open>The theorem for a missing folder, an empty folder and a folder whose only file fails.\<close>

theorem no_data_gives_empty_report_witness:
  "\<not> produces_data lab_world archive_cfg \<and>
   \<not> produces_data lab_world empty_cfg \<and>
   \<not> produces_data lab_world scrap_cfg \<and>
   (case process_tables lab_world [archive_cfg, empty_cfg, scrap_cfg] of
            Inl e \<Rightarrow> False
          | Inr r \<Rightarrow>
              merged_all r = None \<and> excel_buffer r = None \<and>
              combined_warnings r = None \<and> warning_buffer r = None \<and>
              overdue_count r = 0 \<and> near_count r = 0 \<and> total_warnings r = 0 \<and>
              st_success (final r) = [])"
proof -
  have a: "\<not> produces_data lab_world archive_cfg" by code_simp
  have b: "\<not> produces_data lab_world empty_cfg" by code_simp
  have c: "\<not> produces_data lab_world scrap_cfg" by code_simp
  have h: "\<forall>fc \<in> set [archive_cfg, empty_cfg, scrap_cfg]. \<not> produces_data lab_world fc"
    using a b c by simp
  show ?thesis
    using a b c no_data_gives_empty_report [OF h] by blast
qed

section \<open>C9: a rule whose start column is missing\<close>

text \<open>
  C9. A rule whose start column is not among the table's columns is skipped: called with
  this rule alone the evaluator returns the table unchanged, no warning and the clock
  unread, and anywhere in a list of rules the rule makes no difference to the result.
\<close>

theorem missing_start_column_skips_rule:
  assumes "start_column r \<notin> set (columns df)"
  shows "process_date_warnings w n df [r] = ((df, [], n), None) \<and>
         process_date_warnings w n df (rs1 @ r # rs2) = process_date_warnings w n df (rs1 @ rs2)"
proof -
  obtain df1 res1 n1 exc where st: "rules_loop w rs1 (df, [], n) = ((df1, res1, n1), exc)"
    by (cases "rules_loop w rs1 (df, [], n)") auto
  have "columns df1 = columns df"
    using columns_rules_loop [of w rs1 "(df, [], n)"] st by simp
  with assms have "apply_rule w r (df1, res1, n1) = ((df1, res1, n1), None)"
    by (simp add: apply_rule_skip)
  then show ?thesis
    using assms st
    by (cases exc) (simp_all add: process_date_warnings_def rules_loop_append apply_rule_skip)
qed

text \<open>The theorem for the stability table and a rule on a column \<^verbatim>\<open>received\<close>.\<close>

theorem missing_start_column_skips_rule_witness:
  "start_column ((rule stability_cfg)\<lparr>start_column := ''received''\<rparr>) \<notin> set (columns stability_frame) \<and>
   process_date_warnings lab_world 1 stability_frame
     [(rule stability_cfg)\<lparr>start_column := ''received''\<rparr>] = ((stability_frame, [], 1), None) \<and>
   process_date_warnings lab_world 1 stability_frame
     [(rule stability_cfg)\<lparr>start_column := ''received''\<rparr>, rule stability_cfg] =
   process_date_warnings lab_world 1 stability_frame [rule stability_cfg]"
proof -
  have h: "start_column ((rule stability_cfg)\<lparr>start_column := ''received''\<rparr>) \<notin> set (columns stability_frame)"
    by code_simp
  show ?thesis
    using h missing_start_column_skips_rule [OF h, of lab_world 1 "[]" "[rule stability_cfg]"]
    by simp
qed

section \<open>C10: a document without tables\<close>

text \<open>
  C10. A document that opens but holds no table and a document that cannot be opened are
  treated alike: the extractor returns the empty list for both, and the file loop does
  the same for both, appending the file's name to the failed files and nothing else.
\<close>

theorem zero_tables_same_as_unreadable:
  assumes "Document w f1 = Inl e" and "Document w f2 = Inr []"
  shows "extract_tables_from_word w f1 = [] \<and> extract_tables_from_word w f2 = [] \<and>
         scan_file w nm sc f1 = sc\<lparr>failed_files := failed_files sc @ [path_name f1]\<rparr> \<and>
         scan_file w nm sc f2 = sc\<lparr>failed_files := failed_files sc @ [path_name f2]\<rparr>"
  using assms by (simp add: extract_tables_from_word_def scan_file_def)

text \<open>The theorem for the two such documents of the stability folder.\<close>

theorem zero_tables_same_as_unreadable_witness:
  "Document lab_world ''/lab/stability/broken.docx'' =
     Inl (PackageNotFoundError ''/lab/stability/broken.docx'') \<and>
   Document lab_world ''/lab/stability/notes.docx'' = Inr [] \<and>
   extract_tables_from_word lab_world ''/lab/stability/broken.docx'' = [] \<and>
   extract_tables_from_word lab_world ''/lab/stability/notes.docx'' = [] \<and>
   scan_file lab_world ''stability''
     \<lparr>folder_tables = [], processed_files = 0, failed_files = []\<rparr> ''/lab/stability/broken.docx'' =
     \<lparr>folder_tables = [], processed_files = 0, failed_files = [''broken.docx'']\<rparr> \<and>
   scan_file lab_world ''stability''
     \<lparr>folder_tables = [], processed_files = 0, failed_files = []\<rparr> ''/lab/stability/notes.docx'' =
     \<lparr>folder_tables = [], processed_files = 0, failed_files = [''notes.docx'']\<rparr>"
proof -
  have h1: "Document lab_world ''/lab/stability/broken.docx'' =
     Inl (PackageNotFoundError ''/lab/stability/broken.docx'')"
    by code_simp
  have h2: "Document lab_world ''/lab/stability/notes.docx'' = Inr []"
    by code_simp
  have n1: "path_name ''/lab/stability/broken.docx'' = ''broken.docx''" by code_simp
  have n2: "path_name ''/lab/stability/notes.docx'' = ''notes.docx''" by code_simp
  show ?thesis
    using h1 h2 n1 n2
      zero_tables_same_as_unreadable [OF h1 h2, of "''stability''"
        "\<lparr>folder_tables = [], processed_files = 0, failed_files = []\<rparr>"]
    by simp
qed

end
